theory Spec2Isabelle
  imports Complex_Main
begin

section \<open>JavaScript numbers: the double products the generators compute\<close>

text \<open>
  The generators multiply doubles in two places: \<^verbatim>\<open>count * 0.6\<close> and
  \<^verbatim>\<open>Math.random() * arr.length\<close>. A finite double is a rational, and the product of
  two doubles is the exact product rounded to the nearest double, ties to the even
  significand. The model keeps the 53-bit significand of IEEE 754 binary64 and leaves the
  exponent unbounded: overflow and underflow do not arise for the values in this file.
\<close>

function bit_length :: "int \<Rightarrow> nat" where
  "bit_length n = (if n \<le> 0 then 0 else Suc (bit_length (n div 2)))"
  by pat_completeness auto
termination
  by (relation "measure nat") auto

declare bit_length.simps [simp del]

definition pow2 :: "int \<Rightarrow> rat" where
  "pow2 e = (if 0 \<le> e then 2 ^ nat e else 1 / 2 ^ nat (- e))"

definition ilog2 :: "rat \<Rightarrow> int" where
  \<comment> \<open>for \<open>0 < x\<close>: the exponent \<open>k\<close> with \<open>2^k \<le> x < 2^(k+1)\<close>\<close>
  "ilog2 x = (if 1 \<le> x then int (bit_length \<lfloor>x\<rfloor>) - 1
              else - int (bit_length (\<lceil>1 / x\<rceil> - 1)))"

definition round_half_even :: "rat \<Rightarrow> int" where
  "round_half_even x =
     (let f = \<lfloor>x\<rfloor>; d = x - of_int f
      in if d < 1 / 2 then f else if 1 / 2 < d then f + 1
         else if even f then f else f + 1)"

definition fl_round :: "rat \<Rightarrow> rat" where
  \<comment> \<open>the double nearest to a rational\<close>
  "fl_round x =
     (if x = 0 then 0
      else let e = ilog2 \<bar>x\<bar> - 52 in of_int (round_half_even (x / pow2 e)) * pow2 e)"

definition fl_mul :: "rat \<Rightarrow> rat \<Rightarrow> rat" where
  "fl_mul a b = fl_round (a * b)"

definition lit_0_6 :: rat where
  \<comment> \<open>the literal \<^verbatim>\<open>0.6\<close>\<close>
  "lit_0_6 = fl_round (6 / 10)"

section \<open>Strings\<close>

definition digit_char :: "nat \<Rightarrow> char" where
  "digit_char d = ''0123456789'' ! (d mod 10)"

fun String_nat :: "nat \<Rightarrow> string" where
  "String_nat n = (if n < 10 then [digit_char n]
                   else String_nat (n div 10) @ [digit_char (n mod 10)])"

declare String_nat.simps [simp del]

definition String_int :: "int \<Rightarrow> string" where
  \<comment> \<open>\<^verbatim>\<open>String(i)\<close> and \<^verbatim>\<open>`${i}`\<close> for an integer below \<open>10^21\<close>\<close>
  "String_int i = (if i < 0 then CHR ''-'' # String_nat (nat (- i)) else String_nat (nat i))"

definition padStart :: "nat \<Rightarrow> char \<Rightarrow> string \<Rightarrow> string" where
  "padStart n c s = replicate (n - length s) c @ s"

section \<open>The host: random numbers and the clock\<close>

text \<open>
  \<^verbatim>\<open>Math.random()\<close> and \<^verbatim>\<open>new Date()\<close> read the host. The world holds the stream of
  values the host will hand out and how many of each were consumed. A random number is a
  double in \<open>[0, 1)\<close> with a 53-bit fraction: \<open>m / 2^53\<close>, where \<open>m\<close> is the next
  integer of the stream, reduced modulo \<open>2^53\<close>. A clock reading is a time value in
  milliseconds since the epoch. \<open>days_before\<close> is the host's calendar:
  \<open>days_before w t k\<close> is the time value that \<^verbatim>\<open>date.setDate(date.getDate() - k)\<close> gives
  a date of time value \<open>t\<close> in the host's time zone (in UTC, \<open>t - k * 86400000\<close>).
\<close>

record world =
  rnd :: "nat \<Rightarrow> int"
  rpos :: nat
  clk :: "nat \<Rightarrow> int"
  cpos :: nat
  days_before :: "int \<Rightarrow> int \<Rightarrow> int"

definition Math_random :: "world \<Rightarrow> rat \<times> world" where
  "Math_random w =
     (of_int (rnd w (rpos w) mod 2 ^ 53) / 2 ^ 53, w\<lparr>rpos := Suc (rpos w)\<rparr>)"

definition Date_now :: "world \<Rightarrow> int \<times> world" where
  "Date_now w = (clk w (cpos w), w\<lparr>cpos := Suc (cpos w)\<rparr>)"

section \<open>Fixture records\<close>

text \<open>
  The interfaces \<^verbatim>\<open>FakeJamaItem\<close>, \<^verbatim>\<open>FakeJiraIssue\<close>, \<^verbatim>\<open>FakeWindchillPart\<close> and
  \<^verbatim>\<open>FakePulseItem\<close>. Each field carries its record's prefix, since the interfaces share
  field names. An optional property is an \<open>option\<close>, \<open>None\<close> being \<^verbatim>\<open>undefined\<close>.
  A date field holds the time value in milliseconds that \<^verbatim>\<open>toISOString\<close> prints and
  \<^verbatim>\<open>new Date(s).getTime()\<close> reads back.
\<close>

record JamaFields =
  priority :: "string option"
  verification_method :: "string option"
  safety_level :: "string option"
  certification_basis :: "string option"

record FakeJamaItem =
  jama_id :: string
  jama_global_id :: string
  jama_document_key :: string
  jama_item_type :: string
  jama_name :: string
  jama_description :: string
  jama_status :: string
  jama_created_date :: int
  jama_modified_date :: int
  jama_created_by :: string
  jama_modified_by :: string
  jama_fields :: JamaFields

record FakeJiraIssue =
  jira_id :: string
  jira_key :: string
  jira_summary :: string
  jira_description :: string
  jira_issue_type :: string
  jira_status :: string
  jira_priority :: string
  jira_assignee :: "string option"
  jira_reporter :: string
  jira_created :: int
  jira_updated :: int
  jira_labels :: "string list"

record FakeWindchillPart =
  part_id :: string
  part_number :: string
  part_name :: string
  part_description :: string
  part_version :: "nat list"  \<comment> \<open>UTF-16 code units: \<^verbatim>\<open>String.fromCharCode\<close> leaves ASCII\<close>
  part_state :: string
  part_created_by :: string
  part_created_date :: int
  part_modified_date :: int
  part_classification :: string

record ArtifactRef =
  ref_id :: string
  ref_type :: string
  ref_source :: string
  ref_title :: string
  ref_status :: "string option"

record FakePulseItem =
  pulse_id :: string
  pulse_artifact_ref :: ArtifactRef
  pulse_change_type :: string
  pulse_change_summary :: string
  pulse_timestamp :: int
  pulse_author :: "string option"

section \<open>Random field providers\<close>

definition names :: "string list" where
  "names = [''Sarah Chen'', ''Mike Rodriguez'', ''Alex Kim'', ''Jordan Lee'', ''Taylor Smith'',
            ''Morgan Davis'']"

definition statuses :: "string list" where
  "statuses = [''draft'', ''approved'', ''under_review'', ''verified'', ''validated'']"

definition priorities :: "string list" where
  "priorities = [''critical'', ''high'', ''medium'', ''low'']"

definition issueStatuses :: "string list" where
  "issueStatuses = [''open'', ''in_progress'', ''testing'', ''review'', ''resolved'', ''closed'']"

definition random_index :: "nat \<Rightarrow> world \<Rightarrow> int \<times> world" where
  \<comment> \<open>\<^verbatim>\<open>Math.floor(Math.random() * n)\<close>\<close>
  "random_index n w = (let (r, w) = Math_random w in (\<lfloor>fl_mul r (of_nat n)\<rfloor>, w))"

definition randomItem :: "'a list \<Rightarrow> world \<Rightarrow> 'a \<times> world" where
  \<comment> \<open>the index is below the length of every non-empty array (\<open>random_index_range\<close>), and
      every array of this file is a non-empty literal\<close>
  "randomItem arr w = (let (i, w) = random_index (length arr) w in (arr ! nat i, w))"

definition randomDate :: "nat \<Rightarrow> world \<Rightarrow> int \<times> world" where
  "randomDate daysAgo w =
     (let (date, w) = Date_now w;
          (k, w) = random_index daysAgo w
      in (days_before w date k, w))"

section \<open>Per-source generators\<close>

text \<open>
  Each generator is the loop \<^verbatim>\<open>for (let i = 1; i <= count; i++) items.push({...})\<close>
  around an object literal. \<open>push_loop\<close> is that loop, from the current \<open>i\<close> and the
  array built so far; the object literal is a function of \<open>i\<close> and the host. Its
  properties are evaluated in source order, so the draws from the host come in that order.
  \<open>count\<close> is an integer: a call without an argument is a call with the default.
\<close>

function push_loop ::
  "(int \<Rightarrow> world \<Rightarrow> 'a \<times> world) \<Rightarrow> int \<Rightarrow> int \<Rightarrow> 'a list \<Rightarrow> world \<Rightarrow> 'a list \<times> world" where
  "push_loop literal count i items w =
     (if i \<le> count
      then push_loop literal count (i + 1) (items @ [fst (literal i w)]) (snd (literal i w))
      else (items, w))"
  by pat_completeness auto
termination
  by (relation "measure (\<lambda>(literal, count, i, items, w). nat (count + 1 - i))") auto

declare push_loop.simps [simp del]

definition jama_item :: "int \<Rightarrow> int \<Rightarrow> world \<Rightarrow> FakeJamaItem \<times> world" where
  "jama_item count i w =
     (let isRequirement = (of_int i \<le> fl_mul (of_int count) lit_0_6);
          itemType = (if isRequirement then ''requirement'' else ''test_case'');
          prefix = (if isRequirement then ''SYS'' else ''FTC'');
          globalId = ''JAMA-'' @ prefix @ ''-'' @ padStart 3 (CHR ''0'') (String_int i);
          (status, w) = randomItem statuses w;
          (created_date, w) = randomDate 365 w;
          (modified_date, w) = randomDate 30 w;
          (created_by, w) = randomItem names w;
          (modified_by, w) = randomItem names w;
          (prio, w) = randomItem priorities w;
          (method, w) = randomItem [''flight_test'', ''ground_test'', ''simulation'', ''analysis''] w;
          (level, w) = randomItem [''DAL-A'', ''DAL-B'', ''DAL-C''] w;
          (basis, w) = randomItem [''FAR-25'', ''DO-178C'', ''ARP4754A''] w
      in (\<lparr>jama_id = ''jama-'' @ String_int i,
           jama_global_id = globalId,
           jama_document_key = (if isRequirement then ''SRD-2024'' else ''FTP-2024''),
           jama_item_type = itemType,
           jama_name = (if isRequirement
                        then ''Flight Control System Requirement '' @ String_int i
                        else ''Flight Test Case '' @ String_int i),
           jama_description = (if isRequirement
             then ''The system shall provide automated flight control capabilities with redundancy and fail-safe mechanisms compliant with DO-178C Level A requirements.''
             else ''Verify flight control system response time under various flight conditions including normal operations and failure scenarios.''),
           jama_status = status,
           jama_created_date = created_date,
           jama_modified_date = modified_date,
           jama_created_by = created_by,
           jama_modified_by = modified_by,
           jama_fields = \<lparr>priority = Some prio, verification_method = Some method,
                          safety_level = Some level, certification_basis = Some basis\<rparr>\<rparr>, w))"

definition generateFakeJamaItems :: "int \<Rightarrow> world \<Rightarrow> FakeJamaItem list \<times> world" where
  "generateFakeJamaItems count w = push_loop (jama_item count) count 1 [] w"

definition lit_0_3 :: rat where
  \<comment> \<open>the literal \<^verbatim>\<open>0.3\<close>\<close>
  "lit_0_3 = fl_round (3 / 10)"

definition jira_issue :: "int \<Rightarrow> world \<Rightarrow> FakeJiraIssue \<times> world" where
  "jira_issue i w =
     (let key = ''JIRA-AERO-'' @ padStart 3 (CHR ''0'') (String_int i);
          (topic, w) = randomItem [''Sensor Calibration'', ''Hydraulic Pressure'',
                                   ''Avionics Integration'', ''Control Surface Response''] w;
          (issue_type, w) = randomItem [''defect'', ''flight_test_issue'', ''certification_task'',
                                        ''design_change''] w;
          (status, w) = randomItem issueStatuses w;
          (prio, w) = randomItem priorities w;
          (r, w) = Math_random w;
          (assignee, w) = (if lit_0_3 < r then (let (n, w) = randomItem names w in (Some n, w))
                           else (None, w));
          (reporter, w) = randomItem names w;
          (created, w) = randomDate 180 w;
          (updated, w) = randomDate 7 w;
          (label, w) = randomItem [''FAA'', ''DO-178C'', ''flight-test''] w
      in (\<lparr>jira_id = ''jira-'' @ String_int i,
           jira_key = key,
           jira_summary = ''Flight Test Issue: '' @ topic,
           jira_description = ''Issue identified during flight test operations requiring investigation and resolution before certification.'',
           jira_issue_type = issue_type,
           jira_status = status,
           jira_priority = prio,
           jira_assignee = assignee,
           jira_reporter = reporter,
           jira_created = created,
           jira_updated = updated,
           jira_labels = [''flight-safety'', ''certification'', label]\<rparr>, w))"

definition generateFakeJiraIssues :: "int \<Rightarrow> world \<Rightarrow> FakeJiraIssue list \<times> world" where
  "generateFakeJiraIssues count w = push_loop jira_issue count 1 [] w"

definition partTypes :: "string list" where
  "partTypes = [''Flight Control Module'', ''Sensor Assembly'', ''Hydraulic Actuator'',
                ''Avionics Unit'', ''Control Surface'']"

definition windchill_part :: "int \<Rightarrow> world \<Rightarrow> FakeWindchillPart \<times> world" where
  "windchill_part i w =
     (let number = ''AN'' @ String_int (1000 + i);
          (partType, w) = randomItem partTypes w;
          (state, w) = randomItem [''in_work'', ''released'', ''production'', ''obsolete''] w;
          (created_by, w) = randomItem names w;
          (created_date, w) = randomDate 730 w;
          (modified_date, w) = randomDate 90 w;
          (classification, w) = randomItem [''avionics'', ''mechanical'', ''electrical'',
                                            ''hydraulic''] w
      in (\<lparr>part_id = ''part-'' @ String_int i,
           part_number = number,
           part_name = partType @ '' '' @ number,
           part_description = ''Aerospace component for flight control and avionics systems'',
           part_version = [nat ((65 + i div 10) mod 65536), 46] @
                          map (\<lambda>c. of_char c) (String_int (i mod 10)),
           part_state = state,
           part_created_by = created_by,
           part_created_date = created_date,
           part_modified_date = modified_date,
           part_classification = classification\<rparr>, w))"

definition generateFakeWindchillParts :: "int \<Rightarrow> world \<Rightarrow> FakeWindchillPart list \<times> world" where
  "generateFakeWindchillParts count w = push_loop windchill_part count 1 [] w"

section \<open>Pulse aggregator\<close>

text \<open>
  \<^verbatim>\<open>Array.prototype.sort(compare)\<close> is the host's stable sort: an element goes before
  every element of the sorted rest it compares \<open>\<le> 0\<close> with, so equal elements keep their
  order. For a consistent comparator every stable sort returns this list.
\<close>

fun sort_insert :: "('a \<Rightarrow> 'a \<Rightarrow> int) \<Rightarrow> 'a \<Rightarrow> 'a list \<Rightarrow> 'a list" where
  "sort_insert compare x [] = [x]"
| "sort_insert compare x (y # ys) =
     (if compare x y \<le> 0 then x # y # ys else y # sort_insert compare x ys)"

definition Array_sort :: "('a \<Rightarrow> 'a \<Rightarrow> int) \<Rightarrow> 'a list \<Rightarrow> 'a list" where
  "Array_sort compare xs = foldr (sort_insert compare) xs []"

definition pulse_artifact :: "string \<Rightarrow> int \<Rightarrow> world \<Rightarrow> ArtifactRef \<times> world" where
  \<comment> \<open>the \<^verbatim>\<open>switch (source)\<close>\<close>
  "pulse_artifact source i w =
     (if source = ''jama'' then
        (let (status, w) = randomItem statuses w
         in (\<lparr>ref_id = ''JAMA-SYS-'' @ padStart 3 (CHR ''0'') (String_int i),
              ref_type = ''requirement'', ref_source = ''jama'',
              ref_title = ''Flight Control Requirement '' @ String_int i,
              ref_status = Some status\<rparr>, w))
      else if source = ''jira'' then
        (let (status, w) = randomItem issueStatuses w
         in (\<lparr>ref_id = ''JIRA-AERO-'' @ padStart 3 (CHR ''0'') (String_int i),
              ref_type = ''issue'', ref_source = ''jira'',
              ref_title = ''Flight Test Issue '' @ String_int i,
              ref_status = Some status\<rparr>, w))
      else if source = ''windchill'' then
        (let (status, w) = randomItem [''in_work'', ''released'', ''production''] w
         in (\<lparr>ref_id = ''AN'' @ String_int (1000 + i),
              ref_type = ''part'', ref_source = ''windchill'',
              ref_title = ''Flight Control Module AN'' @ String_int (1000 + i),
              ref_status = Some status\<rparr>, w))
      else if source = ''outlook'' then
        (\<lparr>ref_id = ''OUTLOOK-MSG-'' @ padStart 3 (CHR ''0'') (String_int i),
          ref_type = ''message'', ref_source = ''outlook'',
          ref_title = ''Flight Test Coordination Meeting'',
          ref_status = None\<rparr>, w)
      else
        (\<lparr>ref_id = ''EMAIL-'' @ padStart 3 (CHR ''0'') (String_int i),
          ref_type = ''email'', ref_source = ''email'',
          ref_title = ''Certification Status Update'',
          ref_status = None\<rparr>, w))"

definition pulse_item :: "int \<Rightarrow> world \<Rightarrow> FakePulseItem \<times> world" where
  "pulse_item i w =
     (let (source, w) = randomItem [''jama'', ''jira'', ''windchill'', ''outlook'', ''email''] w;
          (changeType, w) = randomItem [''created'', ''updated'', ''status_change''] w;
          (artifactRef, w) = pulse_artifact source i w;
          (timestamp, w) = randomDate 7 w;
          (author, w) = randomItem names w
      in (\<lparr>pulse_id = ''pulse-'' @ String_int i,
           pulse_artifact_ref = artifactRef,
           pulse_change_type = changeType,
           pulse_change_summary =
             (if changeType = ''status_change'' then ''Status changed to''
              else if changeType = ''created'' then ''Created new'' else ''Updated'')
             @ '' '' @ ref_type artifactRef,
           pulse_timestamp = timestamp,
           pulse_author = Some author\<rparr>, w))"

definition by_timestamp_desc :: "FakePulseItem \<Rightarrow> FakePulseItem \<Rightarrow> int" where
  \<comment> \<open>\<^verbatim>\<open>(a, b) => new Date(b.timestamp).getTime() - new Date(a.timestamp).getTime()\<close>\<close>
  "by_timestamp_desc a b = pulse_timestamp b - pulse_timestamp a"

definition generateFakePulseItems :: "int \<Rightarrow> world \<Rightarrow> FakePulseItem list \<times> world" where
  "generateFakePulseItems count w =
     (let (items, w) = push_loop pulse_item count 1 [] w in (Array_sort by_timestamp_desc items, w))"

fun descending :: "int list \<Rightarrow> bool" where
  \<comment> \<open>every adjacent pair \<open>(a, b)\<close> has \<open>a \<ge> b\<close>\<close>
  "descending (a # b # rest) = (a \<ge> b \<and> descending (b # rest))"
| "descending _ = True"

section \<open>Streaming emitter\<close>

text \<open>
  \<^verbatim>\<open>StreamingDataGenerator\<close> has two fields, the handle of its interval timer (or
  \<^verbatim>\<open>null\<close>) and a counter. The timers themselves live in the host: \<^verbatim>\<open>setInterval\<close>
  adds an entry to the host's table and returns a fresh handle, \<^verbatim>\<open>clearInterval\<close>
  removes the entry with that handle. A handle is an object (or a positive number), so
  \<^verbatim>\<open>if (this.intervalId)\<close> asks whether the field is not \<^verbatim>\<open>null\<close>. Time passes in
  ticks of one millisecond; at each tick the host runs every timer that is due. The host
  sets a delay below 1 ms or above 2147483647 ms to 1 ms (\<open>timer_delay\<close>), so the
  interval of a schedule is the delay asked for only within that range. Timers are
  punctual. A callback is known by a number, and calling it is recorded in
  \<open>delivered\<close>; what a callback does to the emitter (calling \<^verbatim>\<open>start\<close> or \<^verbatim>\<open>stop\<close>) is
  an event after the one that called it.
\<close>

record timer =
  handle :: nat
  callback :: nat
  period :: nat
  due :: nat

record StreamingDataGenerator =
  intervalId :: "nat option"
  counter :: nat

record system =
  gen :: StreamingDataGenerator
  timers :: "timer list"
  next_handle :: nat
  now :: nat
  env :: world
  delivered :: "(nat \<times> FakePulseItem) list"

definition timer_delay :: "nat \<Rightarrow> nat" where
  \<comment> \<open>the interval the host gives a timer asked for with a delay of \<open>ms\<close>\<close>
  "timer_delay ms = (if ms < 1 \<or> 2147483647 < ms then 1 else ms)"

definition setInterval :: "nat \<Rightarrow> nat \<Rightarrow> system \<Rightarrow> nat \<times> system" where
  "setInterval cb ms s =
     (let h = next_handle s; p = timer_delay ms
      in (h, s\<lparr>timers := timers s @ [\<lparr>handle = h, callback = cb, period = p, due = now s + p\<rparr>],
               next_handle := Suc h\<rparr>))"

definition clearInterval :: "nat \<Rightarrow> system \<Rightarrow> system" where
  "clearInterval h s = s\<lparr>timers := filter (\<lambda>t. handle t \<noteq> h) (timers s)\<rparr>"

definition stop :: "system \<Rightarrow> system" where
  "stop s =
     (case intervalId (gen s) of
        Some h \<Rightarrow> (clearInterval h s)\<lparr>gen := (gen s)\<lparr>intervalId := None\<rparr>\<rparr>
      | None \<Rightarrow> s)"

definition start :: "nat \<Rightarrow> nat \<Rightarrow> system \<Rightarrow> system" where
  "start cb intervalMs s =
     (let s = stop s;
          (h, s) = setInterval cb intervalMs s
      in s\<lparr>gen := (gen s)\<lparr>intervalId := Some h\<rparr>\<rparr>)"

definition streaming_artifact :: "string \<Rightarrow> world \<Rightarrow> ArtifactRef \<times> world" where
  "streaming_artifact source w =
     (if source = ''jama'' then
        (let (k, w) = random_index 100 w;
             (status, w) = randomItem statuses w
         in (\<lparr>ref_id = ''JAMA-SYS-'' @ padStart 3 (CHR ''0'') (String_int k),
              ref_type = ''requirement'', ref_source = ''jama'',
              ref_title = ''Flight Control Requirement (Live Update)'',
              ref_status = Some status\<rparr>, w))
      else if source = ''jira'' then
        (let (k, w) = random_index 50 w;
             (status, w) = randomItem issueStatuses w
         in (\<lparr>ref_id = ''JIRA-AERO-'' @ padStart 3 (CHR ''0'') (String_int k),
              ref_type = ''issue'', ref_source = ''jira'',
              ref_title = ''Flight Test Issue (Live Update)'',
              ref_status = Some status\<rparr>, w))
      else if source = ''windchill'' then
        (let (k, w) = random_index 50 w;
             (status, w) = randomItem [''in_work'', ''released''] w
         in (\<lparr>ref_id = ''AN'' @ String_int (1000 + k),
              ref_type = ''part'', ref_source = ''windchill'',
              ref_title = ''Component Update (Live)'',
              ref_status = Some status\<rparr>, w))
      else
        (let (k, w) = random_index 20 w
         in (\<lparr>ref_id = ''OUTLOOK-MSG-'' @ padStart 3 (CHR ''0'') (String_int k),
              ref_type = ''message'', ref_source = ''outlook'',
              ref_title = ''New Message (Live)'',
              ref_status = None\<rparr>, w)))"

definition generateStreamingItem :: "nat \<Rightarrow> world \<Rightarrow> FakePulseItem \<times> world" where
  "generateStreamingItem idn w =
     (let (source, w) = randomItem [''jama'', ''jira'', ''windchill'', ''outlook''] w;
          (changeType, w) = randomItem [''created'', ''updated'', ''status_change''] w;
          (artifactRef, w) = streaming_artifact source w;
          (t, w) = Date_now w;
          (timestamp, w) = Date_now w;
          (author, w) = randomItem names w
      in (\<lparr>pulse_id = ''stream-'' @ String_nat idn @ ''-'' @ String_int t,
           pulse_artifact_ref = artifactRef,
           pulse_change_type = changeType,
           pulse_change_summary = ''[LIVE] '' @
             (if changeType = ''status_change'' then ''Status changed''
              else if changeType = ''created'' then ''Created'' else ''Updated'')
             @ '' '' @ ref_type artifactRef,
           pulse_timestamp = timestamp,
           pulse_author = Some author\<rparr>, w))"

definition fire :: "timer \<Rightarrow> system \<Rightarrow> system" where
  \<comment> \<open>the arrow function given to \<^verbatim>\<open>setInterval\<close>, with the \<^verbatim>\<open>callback\<close> it closes over\<close>
  "fire t s =
     (let s = s\<lparr>gen := (gen s)\<lparr>counter := Suc (counter (gen s))\<rparr>\<rparr>;
          (newItem, w) = generateStreamingItem (counter (gen s)) (env s)
      in s\<lparr>env := w, delivered := delivered s @ [(callback t, newItem)]\<rparr>)"

definition tick :: "system \<Rightarrow> system" where
  \<comment> \<open>one millisecond passes\<close>
  "tick s =
     (let s = s\<lparr>now := Suc (now s)\<rparr>;
          ready = filter (\<lambda>t. due t \<le> now s) (timers s);
          s = fold fire ready s
      in s\<lparr>timers := map (\<lambda>t. if due t \<le> now s then t\<lparr>due := due t + period t\<rparr> else t)
                          (timers s)\<rparr>)"

datatype event = Start nat nat | Stop | Tick

fun step :: "event \<Rightarrow> system \<Rightarrow> system" where
  "step (Start cb intervalMs) s = start cb intervalMs s"
| "step Stop s = stop s"
| "step Tick s = tick s"

definition run :: "event list \<Rightarrow> system \<Rightarrow> system" where
  "run evs s = fold step evs s"

definition new_StreamingDataGenerator :: "world \<Rightarrow> system" where
  \<comment> \<open>a fresh instance on a host without timers\<close>
  "new_StreamingDataGenerator w =
     \<lparr>gen = \<lparr>intervalId = None, counter = 0\<rparr>, timers = [], next_handle = 1, now = 0,
      env = w, delivered = []\<rparr>"

fun is_Start :: "event \<Rightarrow> bool" where
  "is_Start (Start cb intervalMs) = True"
| "is_Start _ = False"

definition read_nat :: "string \<Rightarrow> nat" where
  \<comment> \<open>the number a string of decimal digits denotes\<close>
  "read_nat s = foldl (\<lambda>n c. 10 * n + (of_char c - 48)) 0 s"

definition stream_counter :: "FakePulseItem \<Rightarrow> nat" where
  \<comment> \<open>the counter in the id \<^verbatim>\<open>stream-<counter>-<time>\<close> of an emitted item\<close>
  "stream_counter item = read_nat (takeWhile (\<lambda>c. c \<noteq> CHR ''-'') (drop 7 (pulse_id item)))"

section \<open>Relationship-discovery endpoint\<close>

text \<open>
  JavaScript values as far as JSON reaches, with \<^verbatim>\<open>undefined\<close>. An object is the list of
  its own properties (distinct names). What the route throws is a value of \<open>exn\<close>; every
  throw ends in the \<^verbatim>\<open>catch\<close> of the route, so the route itself always answers.
\<close>

datatype jsval =
    JUndefined
  | JNull
  | JBool bool
  | JNum rat
  | JStr string
  | JArr "jsval list"
  | JObj "(string \<times> jsval) list"

datatype exn = TypeError | SyntaxError | FetchFailed

fun truthy :: "jsval \<Rightarrow> bool" where
  "truthy JUndefined = False"
| "truthy JNull = False"
| "truthy (JBool b) = b"
| "truthy (JNum q) = (q \<noteq> 0)"
| "truthy (JStr s) = (s \<noteq> [])"
| "truthy (JArr xs) = True"
| "truthy (JObj kvs) = True"

fun nullish :: "jsval \<Rightarrow> bool" where
  "nullish JUndefined = True"
| "nullish JNull = True"
| "nullish _ = False"

fun isArray :: "jsval \<Rightarrow> bool" where
  "isArray (JArr xs) = True"
| "isArray _ = False"

fun elements :: "jsval \<Rightarrow> jsval list" where
  "elements (JArr xs) = xs"
| "elements _ = []"

fun js_get :: "jsval \<Rightarrow> string \<Rightarrow> exn + jsval" where
  \<comment> \<open>\<^verbatim>\<open>v.name\<close>, for the names the route reads: none of them is a built-in property of an
      array, a string, a number or a boolean\<close>
  "js_get JUndefined name = Inl TypeError"
| "js_get JNull name = Inl TypeError"
| "js_get (JObj kvs) name = Inr (case map_of kvs name of Some v \<Rightarrow> v | None \<Rightarrow> JUndefined)"
| "js_get _ name = Inr JUndefined"

fun js_at :: "jsval \<Rightarrow> nat \<Rightarrow> exn + jsval" where
  \<comment> \<open>\<^verbatim>\<open>v[i]\<close> for a literal index\<close>
  "js_at JUndefined i = Inl TypeError"
| "js_at JNull i = Inl TypeError"
| "js_at (JArr xs) i = Inr (if i < length xs then xs ! i else JUndefined)"
| "js_at (JStr s) i = Inr (if i < length s then JStr [s ! i] else JUndefined)"
| "js_at (JObj kvs) i =
     Inr (case map_of kvs (String_nat i) of Some v \<Rightarrow> v | None \<Rightarrow> JUndefined)"
| "js_at _ i = Inr JUndefined"

definition or_else :: "jsval \<Rightarrow> jsval \<Rightarrow> jsval" where
  \<comment> \<open>\<^verbatim>\<open>v || d\<close>\<close>
  "or_else v d = (if truthy v then v else d)"

definition ascii_toUpperCase :: "string \<Rightarrow> string" where
  \<comment> \<open>\<^verbatim>\<open>toUpperCase\<close> on a text of ASCII characters\<close>
  "ascii_toUpperCase s =
     map (\<lambda>c. let n = (of_char c :: nat) in if 97 \<le> n \<and> n \<le> 122 then char_of (n - 32) else c) s"

datatype fetch_outcome = Rejected | Responded bool string "jsval option"

record fetch_call =
  call_url :: string
  call_authorization :: string
  call_model :: string
  call_sources :: "(string \<times> jsval \<times> jsval \<times> jsval) list"

text \<open>
  The host of the route: the two environment variables, the network (what
  \<^verbatim>\<open>fetch\<close> answers to a call: it rejects, or it responds with \<^verbatim>\<open>ok\<close>, the text of the
  body and what \<^verbatim>\<open>json()\<close> resolves to, \<open>None\<close> when that rejects), \<^verbatim>\<open>JSON.parse\<close>
  (\<open>None\<close> when it throws), \<^verbatim>\<open>String.prototype.toUpperCase\<close> and
  \<^verbatim>\<open>Number.prototype.toString(36)\<close>. A call carries
  the values the route interpolates into the user prompt, per source: type in upper case,
  title, system and content; the fixed text of the prompts is left out.
\<close>

record route_host =
  OPENAI_API_KEY :: "string option"
  MODEL :: "string option"
  fetch :: "fetch_call \<Rightarrow> fetch_outcome"
  JSON_parse :: "jsval \<Rightarrow> jsval option"
  toUpperCase :: "string \<Rightarrow> string"
  toString36 :: "rat \<Rightarrow> string"

datatype response_body =
    ErrorJson string "jsval option"
      \<comment> \<open>\<^verbatim>\<open>{ error, details }\<close>, \<open>None\<close> where the object has no \<^verbatim>\<open>details\<close>\<close>
  | CaughtJson string exn
      \<comment> \<open>\<^verbatim>\<open>{ error, message }\<close> with the message of the exception caught\<close>
  | RelationshipsJson "jsval list" int
      \<comment> \<open>\<^verbatim>\<open>{ relationships, analysisTime }\<close>\<close>

record response =
  status :: nat
  payload :: response_body

definition prompt_source :: "route_host \<Rightarrow> jsval \<Rightarrow> exn + (string \<times> jsval \<times> jsval \<times> jsval)" where
  "prompt_source h source =
     (case js_get source ''type'' of
        Inl e \<Rightarrow> Inl e
      | Inr ty \<Rightarrow>
          (case ty of
             JStr t \<Rightarrow>
               (case js_get source ''title'' of
                  Inl e \<Rightarrow> Inl e
                | Inr title \<Rightarrow>
                    (case js_get source ''metadata'' of
                       Inl e \<Rightarrow> Inl e
                     | Inr metadata \<Rightarrow>
                         (case js_get metadata ''system'' of
                            Inl e \<Rightarrow> Inl e
                          | Inr sys \<Rightarrow>
                              (case js_get source ''content'' of
                                 Inl e \<Rightarrow> Inl e
                               | Inr content \<Rightarrow>
                                   Inr (toUpperCase h t, title,
                                        or_else sys (JStr ''Unknown''), content)))))
           | _ \<Rightarrow> Inl TypeError))"

fun prompt_sources ::
  "route_host \<Rightarrow> jsval list \<Rightarrow> exn + (string \<times> jsval \<times> jsval \<times> jsval) list" where
  "prompt_sources h [] = Inr []"
| "prompt_sources h (source # rest) =
     (case prompt_source h source of
        Inl e \<Rightarrow> Inl e
      | Inr p \<Rightarrow> (case prompt_sources h rest of Inl e \<Rightarrow> Inl e | Inr ps \<Rightarrow> Inr (p # ps)))"

definition model_output :: "jsval \<Rightarrow> exn + jsval" where
  \<comment> \<open>\<^verbatim>\<open>openaiData.choices[0]?.message?.content\<close>\<close>
  "model_output openaiData =
     (case js_get openaiData ''choices'' of
        Inl e \<Rightarrow> Inl e
      | Inr choices \<Rightarrow>
          (case js_at choices 0 of
             Inl e \<Rightarrow> Inl e
           | Inr choice \<Rightarrow>
               if nullish choice then Inr JUndefined
               else (case js_get choice ''message'' of
                       Inl e \<Rightarrow> Inl e
                     | Inr message \<Rightarrow>
                         if nullish message then Inr JUndefined
                         else js_get message ''content'')))"

definition parse_relationships :: "route_host \<Rightarrow> jsval \<Rightarrow> exn + jsval" where
  \<comment> \<open>the body of the inner \<^verbatim>\<open>try\<close>\<close>
  "parse_relationships h aiResponse =
     (case JSON_parse h aiResponse of
        None \<Rightarrow> Inl SyntaxError
      | Some parsed \<Rightarrow>
          if isArray parsed then Inr parsed
          else (case js_get parsed ''relationships'' of
                  Inl e \<Rightarrow> Inl e
                | Inr r \<Rightarrow> Inr (or_else r (JArr []))))"

fun to_index :: "jsval \<Rightarrow> nat option" where
  \<comment> \<open>the array index a property key denotes\<close>
  "to_index (JNum q) = (if 0 \<le> q \<and> of_int \<lfloor>q\<rfloor> = q then Some (nat \<lfloor>q\<rfloor>) else None)"
| "to_index (JStr s) =
     (if s \<noteq> [] \<and> list_all (\<lambda>c. 48 \<le> (of_char c :: nat) \<and> (of_char c :: nat) \<le> 57) s
         \<and> (s = ''0'' \<or> hd s \<noteq> CHR ''0'')
      then Some (read_nat s) else None)"
| "to_index (JArr [v]) = to_index v"
| "to_index _ = None"

fun key_text :: "jsval \<Rightarrow> string option" where
  \<comment> \<open>the property name of a key that is a string, or an array of one such key\<close>
  "key_text (JStr s) = Some s"
| "key_text (JArr [v]) = key_text v"
| "key_text _ = None"

definition array_read :: "jsval list \<Rightarrow> jsval \<Rightarrow> jsval" where
  \<comment> \<open>\<^verbatim>\<open>sources[key]\<close>, as the JSON of the response shows it: an element, the
      \<^verbatim>\<open>length\<close>, the prototype (an empty array) under \<^verbatim>\<open>__proto__\<close>; any other key names
      no property or an inherited method, which the JSON leaves out as it does
      \<^verbatim>\<open>undefined\<close>\<close>
  "array_read xs key =
     (case to_index key of
        Some i \<Rightarrow> if i < length xs then xs ! i else JUndefined
      | None \<Rightarrow>
          (case key_text key of
             Some name \<Rightarrow>
               if name = ''length'' then JNum (of_nat (length xs))
               else if name = ''__proto__'' then JArr []
               else JUndefined
           | None \<Rightarrow> JUndefined))"

definition enrich :: "route_host \<Rightarrow> jsval list \<Rightarrow> jsval \<Rightarrow> world \<Rightarrow> exn + (jsval \<times> world)" where
  \<comment> \<open>the function mapped over \<^verbatim>\<open>relationships\<close>\<close>
  "enrich h sources rel w =
     (case js_get rel ''sourceIndices'' of
        Inl e \<Rightarrow> Inl e
      | Inr si \<Rightarrow>
          (let sourceIndices = or_else si (JArr [JNum 0, JNum 1]);
               (t, w) = Date_now w;
               (r, w) = Math_random w;
               field = (\<lambda>name. case js_get rel name of Inl e \<Rightarrow> JUndefined | Inr v \<Rightarrow> v);
               entry = (\<lambda>i. case js_at sourceIndices i of Inl e \<Rightarrow> JUndefined | Inr v \<Rightarrow> v)
           in Inr (JObj
                [(''id'', JStr (''rel-'' @ String_int t @ ''-'' @ take 9 (drop 2 (toString36 h r)))),
                 (''sourceA'', array_read sources (entry 0)),
                 (''sourceB'', array_read sources (entry 1)),
                 (''relationshipType'', field ''relationshipType''),
                 (''confidence'', field ''confidence''),
                 (''description'', field ''description''),
                 (''aiInsight'', field ''aiInsight''),
                 (''potentialRisks'', or_else (field ''potentialRisks'') (JArr [])),
                 (''recommendations'', or_else (field ''recommendations'') (JArr [])),
                 (''systemsInvolved'', or_else (field ''systemsInvolved'') (JArr []))], w)))"

fun enrich_all :: "route_host \<Rightarrow> jsval list \<Rightarrow> jsval list \<Rightarrow> world \<Rightarrow> exn + (jsval list \<times> world)" where
  "enrich_all h sources [] w = Inr ([], w)"
| "enrich_all h sources (rel # rest) w =
     (case enrich h sources rel w of
        Inl e \<Rightarrow> Inl e
      | Inr (x, w) \<Rightarrow>
          (case enrich_all h sources rest w of
             Inl e \<Rightarrow> Inl e
           | Inr (xs, w) \<Rightarrow> Inr (x # xs, w)))"

definition caught :: "exn \<Rightarrow> response" where
  \<comment> \<open>the outer \<^verbatim>\<open>catch\<close>\<close>
  "caught e = \<lparr>status = 500, payload = CaughtJson ''Failed to discover relationships'' e\<rparr>"

definition respond :: "route_host \<Rightarrow> jsval list \<Rightarrow> world \<Rightarrow> jsval \<Rightarrow> response" where
  \<comment> \<open>from \<^verbatim>\<open>if (!aiResponse)\<close> to the end of the route\<close>
  "respond h sources w aiResponse =
     (if \<not> truthy aiResponse
      then \<lparr>status = 500, payload = ErrorJson ''No response from AI'' None\<rparr>
      else (case parse_relationships h aiResponse of
              Inl e \<Rightarrow> \<lparr>status = 500,
                         payload = ErrorJson ''Invalid AI response format'' (Some aiResponse)\<rparr>
            | Inr relationships \<Rightarrow>
                if isArray relationships
                then (case enrich_all h sources (elements relationships) w of
                        Inl e \<Rightarrow> caught e
                      | Inr (enriched, w) \<Rightarrow>
                          \<lparr>status = 200,
                           payload = RelationshipsJson enriched (fst (Date_now w))\<rparr>)
                else caught TypeError))"

definition openai_call :: "route_host \<Rightarrow> string \<Rightarrow> (string \<times> jsval \<times> jsval \<times> jsval) list \<Rightarrow> fetch_call" where
  "openai_call h key ps =
     \<lparr>call_url = ''https://api.openai.com/v1/chat/completions'',
      call_authorization = ''Bearer '' @ key,
      call_model = (case MODEL h of None \<Rightarrow> ''gpt-4o''
                    | Some m \<Rightarrow> if m = [] then ''gpt-4o'' else m),
      call_sources = ps\<rparr>"

definition discover :: "route_host \<Rightarrow> jsval list \<Rightarrow> world \<Rightarrow> response \<times> fetch_call list" where
  \<comment> \<open>the route after the check of \<^verbatim>\<open>sources\<close>\<close>
  "discover h sources w =
     (case OPENAI_API_KEY h of
        None \<Rightarrow> (\<lparr>status = 500, payload = ErrorJson ''OpenAI API key not configured'' None\<rparr>, [])
      | Some key \<Rightarrow>
          if key = []
          then (\<lparr>status = 500, payload = ErrorJson ''OpenAI API key not configured'' None\<rparr>, [])
          else (case prompt_sources h sources of
                  Inl e \<Rightarrow> (caught e, [])
                | Inr ps \<Rightarrow>
                    (let call = openai_call h key ps
                     in case fetch h call of
                          Rejected \<Rightarrow> (caught FetchFailed, [call])
                        | Responded ok text json \<Rightarrow>
                            if \<not> ok
                            then (\<lparr>status = 500,
                                   payload = ErrorJson ''Failed to get AI analysis''
                                            (Some (JStr text))\<rparr>, [call])
                            else (case json of
                                    None \<Rightarrow> (caught SyntaxError, [call])
                                  | Some openaiData \<Rightarrow>
                                      (case model_output openaiData of
                                         Inl e \<Rightarrow> (caught e, [call])
                                       | Inr aiResponse \<Rightarrow>
                                           (respond h sources w aiResponse, [call]))))))"

definition POST :: "route_host \<Rightarrow> jsval option \<Rightarrow> world \<Rightarrow> response \<times> fetch_call list" where
  \<comment> \<open>the request is what \<^verbatim>\<open>request.json()\<close> resolves to, \<open>None\<close> when it rejects; the
      result is the response and the outbound calls made, in order\<close>
  "POST h request w =
     (case request of
        None \<Rightarrow> (caught SyntaxError, [])
      | Some body \<Rightarrow>
          (case js_get body ''sources'' of
             Inl e \<Rightarrow> (caught e, [])
           | Inr sources \<Rightarrow>
               if \<not> truthy sources \<or> \<not> isArray sources \<or> length (elements sources) < 2
               then (\<lparr>status = 400,
                      payload = ErrorJson ''At least 2 data sources are required'' None\<rparr>, [])
               else discover h (elements sources) w))"

section \<open>Sample inputs\<close>

definition sample_world :: world where
  "sample_world =
     \<lparr>rnd = (\<lambda>k. int k * 1234567890123457 + 99), rpos = 0,
      clk = (\<lambda>k. 1700000000000 + int k), cpos = 0,
      days_before = (\<lambda>t k. t - k * 86400000)\<rparr>"

section \<open>Predicates on records and on states of the emitter\<close>

definition jama_valid :: "FakeJamaItem \<Rightarrow> bool" where
  \<comment> \<open>a non-empty identifier, a status and a priority of the vocabularies\<close>
  "jama_valid x =
     (jama_id x \<noteq> [] \<and> jama_global_id x \<noteq> [] \<and> jama_status x \<in> set statuses
      \<and> priority (jama_fields x) \<in> Some ` set priorities)"

definition jira_valid :: "FakeJiraIssue \<Rightarrow> bool" where
  "jira_valid x =
     (jira_id x \<noteq> [] \<and> jira_key x \<noteq> [] \<and> jira_status x \<in> set issueStatuses
      \<and> jira_priority x \<in> set priorities)"

definition part_valid :: "FakeWindchillPart \<Rightarrow> bool" where
  \<comment> \<open>a part has a lifecycle state for a status, and no priority\<close>
  "part_valid x =
     (part_id x \<noteq> [] \<and> part_number x \<noteq> []
      \<and> part_state x \<in> set [''in_work'', ''released'', ''production'', ''obsolete''])"

definition jama_consistent :: "FakeJamaItem \<Rightarrow> bool" where
  \<comment> \<open>the item type decides the document key and the prefix inside
      \<^verbatim>\<open>JAMA-<prefix>-<number>\<close>\<close>
  "jama_consistent x =
     ((jama_document_key x = ''SRD-2024'') = (jama_item_type x = ''requirement'')
      \<and> (jama_document_key x = ''FTP-2024'') = (jama_item_type x = ''test_case'')
      \<and> (take 3 (drop 5 (jama_global_id x)) = ''SYS'') = (jama_item_type x = ''requirement'')
      \<and> (take 3 (drop 5 (jama_global_id x)) = ''FTC'') = (jama_item_type x = ''test_case'')
      \<and> take 5 (jama_global_id x) = ''JAMA-''
      \<and> (jama_item_type x = ''requirement'' \<or> jama_item_type x = ''test_case''))"

definition jama_type_at :: "int \<Rightarrow> int \<Rightarrow> string" where
  \<comment> \<open>\<^verbatim>\<open>itemType\<close> at index \<open>i\<close> of a call with \<open>count\<close>\<close>
  "jama_type_at count i =
     (if of_int i \<le> fl_mul (of_int count) lit_0_6 then ''requirement'' else ''test_case'')"

definition one_timer :: "system \<Rightarrow> bool" where
  \<comment> \<open>the host holds exactly the timer the instance remembers, and no other\<close>
  "one_timer s =
     (case intervalId (gen s) of
        None \<Rightarrow> timers s = []
      | Some h \<Rightarrow>
          (case timers s of
             [t] \<Rightarrow> handle t = h \<and> now s < due t \<and> 0 < period t
           | _ \<Rightarrow> False))"

definition no_start :: "event list \<Rightarrow> bool" where
  "no_start evs = list_all (\<lambda>e. \<not> is_Start e) evs"

definition emitted_counters :: "system \<Rightarrow> nat list" where
  \<comment> \<open>the counters of the items handed to callbacks so far, oldest first\<close>
  "emitted_counters s = map (\<lambda>d. stream_counter (snd d)) (delivered s)"

definition counted :: "system \<Rightarrow> bool" where
  \<comment> \<open>the items emitted so far carry the counters from 1 up to the instance's counter\<close>
  "counted s = (emitted_counters s = [1..<Suc (counter (gen s))])"

section \<open>Sample requests and hosts of the endpoint\<close>

definition completion :: "jsval \<Rightarrow> jsval" where
  \<comment> \<open>a chat completion with one choice and the given message content\<close>
  "completion content =
     JObj [(''choices'', JArr [JObj [(''message'', JObj [(''content'', content)])]])]"

definition sample_parse :: "jsval \<Rightarrow> jsval option" where
  \<comment> \<open>\<^verbatim>\<open>JSON.parse\<close> on the texts of the examples: the text \<^verbatim>\<open>[]\<close> is the empty array,
      the empty text and \<^verbatim>\<open>not json\<close> make it throw; the examples use no other text\<close>
  "sample_parse v = (if v = JStr ''[]'' then Some (JArr []) else None)"

definition sample_host :: "string \<Rightarrow> route_host" where
  \<comment> \<open>a configured host whose network answers every call with a completion of the given
      content\<close>
  "sample_host content =
     \<lparr>OPENAI_API_KEY = Some ''sk-sample'', MODEL = None,
      fetch = (\<lambda>call. Responded True [] (Some (completion (JStr content)))),
      JSON_parse = sample_parse,
      toUpperCase = ascii_toUpperCase,
      toString36 = (\<lambda>r. ''0.4fzyo82mvyr'')\<rparr>"

definition sample_sources :: "jsval list" where
  "sample_sources =
     [JObj [(''id'', JStr ''r1''), (''type'', JStr ''requirement''), (''title'', JStr ''Oxygen supply''),
            (''content'', JStr ''The system shall store oxygen.''),
            (''metadata'', JObj [(''system'', JStr ''jama'')])],
      JObj [(''id'', JStr ''i1''), (''type'', JStr ''jira''), (''title'', JStr ''Tank pressure''),
            (''content'', JStr ''Pressure drops during test.''),
            (''metadata'', JObj [])]]"

definition sample_request :: "jsval option" where
  "sample_request = Some (JObj [(''sources'', JArr sample_sources)])"

section \<open>Properties of the double products\<close>

lemma bit_length_bounds: "0 < n \<Longrightarrow> 2 ^ (bit_length n - 1) \<le> n \<and> n < 2 ^ bit_length n"
proof (induction n rule: bit_length.induct)
  case (1 n)
  show ?case
  proof (cases "n div 2 \<le> 0")
    case True
    with 1(2) have "n = 1" by linarith
    then show ?thesis by (simp add: bit_length.simps)
  next
    case False
    then have pos: "0 < n div 2" by simp
    with 1 have ih: "2 ^ (bit_length (n div 2) - 1) \<le> n div 2" "n div 2 < 2 ^ bit_length (n div 2)"
      by auto
    have bl: "bit_length n = Suc (bit_length (n div 2))"
      using 1(2) by (subst bit_length.simps) simp
    have blpos: "0 < bit_length (n div 2)"
      using pos by (subst bit_length.simps) simp
    then obtain k where k: "bit_length (n div 2) = Suc k" by (cases "bit_length (n div 2)") auto
    from ih k have "2 ^ k \<le> n div 2" "n div 2 < 2 ^ Suc k" by auto
    then have "2 * 2 ^ k \<le> n" "n < 2 * 2 ^ Suc k" by linarith+
    then show ?thesis by (simp add: bl k)
  qed
qed

lemma rat_of_int_less_pow2: "(n::int) < 2 ^ k \<Longrightarrow> (of_int n :: rat) + 1 \<le> 2 ^ k"
proof -
  assume "n < 2 ^ k"
  then have "n + 1 \<le> 2 ^ k" by simp
  then have "(of_int (n + 1) :: rat) \<le> of_int (2 ^ k)" by (simp only: of_int_le_iff)
  then show ?thesis by simp
qed

lemma rat_of_int_ge_pow2: "2 ^ k \<le> (n::int) \<Longrightarrow> 2 ^ k \<le> (of_int n :: rat)"
proof -
  assume "2 ^ k \<le> n"
  then have "(of_int (2 ^ k) :: rat) \<le> of_int n" by (simp only: of_int_le_iff)
  then show ?thesis by simp
qed

lemma bit_length_pos: "0 < n \<Longrightarrow> 0 < bit_length n"
  by (subst bit_length.simps) simp

lemma pow2_pos: "0 < pow2 e"
  by (simp add: pow2_def)

lemma ilog2_bounds:
  assumes "0 < x"
  shows "pow2 (ilog2 x) \<le> x \<and> x < pow2 (ilog2 x + 1)"
proof (cases "1 \<le> x")
  case True
  define n where "n = \<lfloor>x\<rfloor>"
  define k where "k = bit_length n"
  have npos: "0 < n" using True unfolding n_def by linarith
  have kpos: "0 < k" using npos by (simp add: k_def bit_length_pos)
  have b: "2 ^ (k - 1) \<le> n" "n < 2 ^ k"
    using bit_length_bounds [OF npos] by (simp_all add: k_def)
  have nx: "of_int n \<le> x" "x < of_int n + 1"
    unfolding n_def by linarith+
  have il: "ilog2 x = int k - 1" using True by (simp add: ilog2_def n_def k_def)
  have p1: "pow2 (int k - 1) = 2 ^ (k - 1)"
    using kpos by (simp add: pow2_def nat_diff_distrib)
  have p2: "pow2 (int k - 1 + 1) = 2 ^ k"
    by (simp add: pow2_def)
  have lo: "(2::rat) ^ (k - 1) \<le> of_int n"
    using b(1) by (rule rat_of_int_ge_pow2)
  have hi: "(of_int n :: rat) + 1 \<le> 2 ^ k"
    using b(2) by (rule rat_of_int_less_pow2)
  have "pow2 (ilog2 x) \<le> x" unfolding il p1 using lo nx by linarith
  moreover have "x < pow2 (ilog2 x + 1)" unfolding il p2 using hi nx by linarith
  ultimately show ?thesis by blast
next
  case False
  define y where "y = 1 / x"
  define c where "c = \<lceil>y\<rceil>"
  define n where "n = c - 1"
  define k where "k = bit_length n"
  have y1: "1 < y" using False assms by (simp add: y_def)
  have c2: "2 \<le> c" using y1 unfolding c_def by linarith
  have npos: "0 < n" using c2 by (simp add: n_def)
  have kpos: "0 < k" using npos by (simp add: k_def bit_length_pos)
  have b: "2 ^ (k - 1) \<le> n" "n < 2 ^ k"
    using bit_length_bounds [OF npos] by (simp_all add: k_def)
  have cy: "of_int c - 1 < y" "y \<le> of_int c"
    unfolding c_def by linarith+
  have nc: "(of_int n :: rat) = of_int c - 1"
    by (simp add: n_def)
  have il: "ilog2 x = - int k" using False by (simp add: ilog2_def n_def k_def c_def y_def)
  have p1: "pow2 (- int k) = 1 / 2 ^ k"
    using kpos by (simp add: pow2_def)
  have p2: "pow2 (- int k + 1) = 1 / 2 ^ (k - 1)"
    using kpos by (cases k) (simp_all add: pow2_def)
  have lo: "(2::rat) ^ (k - 1) \<le> of_int n"
    using b(1) by (rule rat_of_int_ge_pow2)
  have hi: "(of_int n :: rat) + 1 \<le> 2 ^ k"
    using b(2) by (rule rat_of_int_less_pow2)
  have "y \<le> 2 ^ k" using hi nc cy by linarith
  then have a: "1 / 2 ^ k \<le> x"
    using assms by (simp add: y_def field_simps)
  have "2 ^ (k - 1) < y" using lo nc cy by linarith
  then have b': "x < 1 / 2 ^ (k - 1)"
    using assms by (simp add: y_def field_simps)
  have "pow2 (ilog2 x) \<le> x" unfolding il p1 using a .
  moreover have "x < pow2 (ilog2 x + 1)" unfolding il p2 using b' .
  ultimately show ?thesis by blast
qed

lemma round_half_even_le: "of_int (round_half_even x) \<le> x + 1 / 2"
  unfolding round_half_even_def Let_def by (auto; linarith)

lemma round_half_even_ge: "x - 1 / 2 \<le> of_int (round_half_even x)"
  unfolding round_half_even_def Let_def by (auto; linarith)

lemma pow2_neg: "e \<le> 0 \<Longrightarrow> pow2 e * 2 ^ nat (- e) = 1"
  by (cases "e = 0") (simp_all add: pow2_def)

lemma ilog2_less: 
  assumes "0 < x" "x < 2 ^ k"
  shows "ilog2 x < int k"
proof (rule ccontr)
  assume "\<not> ilog2 x < int k"
  then have ge: "int k \<le> ilog2 x" by simp
  then have "pow2 (int k) \<le> pow2 (ilog2 x)"
    by (auto simp add: pow2_def intro!: power_increasing)
  also have "\<dots> \<le> x" using ilog2_bounds [OF assms(1)] by simp
  finally show False using assms(2) by (simp add: pow2_def)
qed

lemma pow2_shift: "pow2 (e + int k) = 2 ^ k * pow2 e"
proof (cases "0 \<le> e")
  case True
  then show ?thesis by (simp add: pow2_def nat_add_distrib power_add)
next
  case neg: False
  show ?thesis
  proof (cases "0 \<le> e + int k")
    case True
    have "k = nat (e + int k) + nat (- e)" using neg True by linarith
    then have "(2::rat) ^ k = 2 ^ nat (e + int k) * 2 ^ nat (- e)"
      by (metis power_add)
    then show ?thesis using neg True by (simp add: pow2_def)
  next
    case False
    have "nat (- e) = nat (- (e + int k)) + k" using neg False by linarith
    then have "(2::rat) ^ nat (- e) = 2 ^ nat (- (e + int k)) * 2 ^ k"
      by (metis power_add)
    then show ?thesis using neg False by (simp add: pow2_def)
  qed
qed

lemma fl_round_pos:
  "0 < x \<Longrightarrow> fl_round x = of_int (round_half_even (x / pow2 (ilog2 x - 52))) * pow2 (ilog2 x - 52)"
  by (simp add: fl_round_def Let_def)

lemma random_index_bound:
  assumes m: "0 \<le> m" "m < 2 ^ 53" and n: "0 < n" "n \<le> 2 ^ 53"
  shows "0 \<le> fl_mul (of_int m / 2 ^ 53) (of_nat n) \<and> fl_mul (of_int m / 2 ^ 53) (of_nat n) < of_nat n"
proof (cases "m = 0")
  case True
  then show ?thesis using n by (simp add: fl_mul_def fl_round_def)
next
  case False
  define x :: rat where "x = of_int m / 2 ^ 53 * of_nat n"
  define e where "e = ilog2 x - 52"
  define j where "j = nat (- e)"
  define r where "r = round_half_even (x / pow2 e)"
  define N :: rat where "N = of_nat n"
  have Npos: "0 < N" using n by (simp add: N_def)
  have xpos: "0 < x" using False m n by (simp add: x_def)
  have "of_int m + (1::rat) \<le> 2 ^ 53"
    using rat_of_int_less_pow2 [of m 53] m by simp
  then have "(of_int m + 1) * N \<le> 2 ^ 53 * N"
    using Npos by (simp only: mult_le_cancel_right_pos)
  then have gap: "x + N / 2 ^ 53 \<le> N"
    by (simp add: x_def N_def field_simps)
  have "0 < N / 2 ^ 53" using Npos by simp
  then have xn: "x < N" using gap by linarith
  have "of_nat n \<le> (of_nat (2 ^ 53) :: rat)"
    using n(2) by (simp only: of_nat_le_iff)
  then have "N \<le> 2 ^ 53" by (simp add: N_def)
  then have "x < 2 ^ 53" using xn by linarith
  then have "ilog2 x < 53" using ilog2_less [OF xpos, of 53] by simp
  then have e0: "e \<le> 0" by (simp add: e_def)
  have pe: "pow2 e * 2 ^ j = 1" unfolding j_def using e0 by (rule pow2_neg)
  have pepos: "0 < pow2 e" by (rule pow2_pos)
  have jpos: "(0::rat) < 2 ^ j" by simp
  have div: "x / pow2 e = x * 2 ^ j"
    using pe pepos by (simp add: field_simps)
  have "pow2 (ilog2 x) \<le> x" using ilog2_bounds [OF xpos] by simp
  moreover have "pow2 (ilog2 x) = 2 ^ 52 * pow2 e"
    using pow2_shift [of e 52] by (simp add: e_def)
  ultimately have "2 ^ 52 * pow2 e \<le> x" by simp
  then have "2 ^ 52 * pow2 e * 2 ^ j \<le> x * 2 ^ j"
    using jpos by (simp only: mult_le_cancel_right_pos)
  then have lo: "2 ^ 52 \<le> x * 2 ^ j" using pe by (simp add: mult.assoc)
  have fl: "fl_mul (of_int m / 2 ^ 53) (of_nat n) = of_int r * pow2 e"
    unfolding fl_mul_def x_def [symmetric] r_def e_def using xpos by (rule fl_round_pos)
  have rle: "of_int r \<le> x * 2 ^ j + 1 / 2"
    unfolding r_def div by (rule round_half_even_le)
  have rge: "x * 2 ^ j - 1 / 2 \<le> of_int r"
    unfolding r_def div by (rule round_half_even_ge)
  have "(x + N / 2 ^ 53) * 2 ^ j \<le> N * 2 ^ j"
    using gap jpos by (simp only: mult_le_cancel_right_pos)
  then have g2: "x * 2 ^ j + N * 2 ^ j / 2 ^ 53 \<le> N * 2 ^ j"
    by (simp add: field_simps)
  have "x * 2 ^ j < N * 2 ^ j" using xn jpos by (simp only: mult_less_cancel_right_pos)
  then have "2 ^ 52 < N * 2 ^ j" using lo by linarith
  then have "1 / 2 < N * 2 ^ j / 2 ^ 53" by simp
  then have "of_int r < N * 2 ^ j" using rle g2 by linarith
  then have "(of_int r :: rat) < of_int (int n * 2 ^ j)" by (simp add: N_def)
  then have "r < int n * 2 ^ j" by (simp only: of_int_less_iff)
  then have "r + 1 \<le> int n * 2 ^ j" by simp
  then have "(of_int (r + 1) :: rat) \<le> of_int (int n * 2 ^ j)" by (simp only: of_int_le_iff)
  then have "of_int r + 1 \<le> N * 2 ^ j" by (simp add: N_def)
  then have "(of_int r + 1) * pow2 e \<le> N * 2 ^ j * pow2 e"
    using pepos by (simp only: mult_le_cancel_right_pos)
  also have "N * 2 ^ j * pow2 e = N" using pe by (simp add: mult.assoc mult.commute)
  finally have "of_int r * pow2 e + pow2 e \<le> N" by (simp add: algebra_simps)
  then have up: "of_int r * pow2 e < N" using pepos by linarith
  have "1 \<le> x * 2 ^ j" using lo by simp
  then have "(0::rat) \<le> of_int r" using rge by linarith
  then have "0 \<le> of_int r * pow2 e" using pepos by simp
  then show ?thesis using up unfolding fl N_def by blast
qed

section \<open>Random field providers always pick from the array\<close>

lemma random_index_range:
  assumes "0 < n" "n \<le> 2 ^ 53"
  shows "0 \<le> fst (random_index n w) \<and> fst (random_index n w) < int n"
proof -
  define m where "m = rnd w (rpos w) mod 2 ^ 53"
  have m: "0 \<le> m" "m < 2 ^ 53" by (simp_all add: m_def)
  define y where "y = fl_mul (of_int m / 2 ^ 53) (of_nat n)"
  have y: "0 \<le> y" "y < of_nat n"
    using random_index_bound [OF m assms] by (simp_all add: y_def)
  have idx: "fst (random_index n w) = \<lfloor>y\<rfloor>"
    by (simp add: random_index_def Math_random_def y_def m_def)
  have "0 \<le> \<lfloor>y\<rfloor>" using y(1) by simp
  moreover have "\<lfloor>y\<rfloor> < int n" using y(2) by (simp add: floor_less_iff)
  ultimately show ?thesis by (simp add: idx)
qed

lemma randomItem_in_set:
  assumes "arr \<noteq> []" "length arr \<le> 2 ^ 53"
  shows "fst (randomItem arr w) \<in> set arr"
proof -
  have "0 < length arr" using assms(1) by simp
  from random_index_range [OF this assms(2), of w]
  have "nat (fst (random_index (length arr) w)) < length arr" by linarith
  then show ?thesis by (simp add: randomItem_def split_beta)
qed

lemma random_index_sample: "fst (random_index 5 (sample_world\<lparr>rpos := 3\<rparr>)) = 2"
  by code_simp

lemma randomItem_statuses: "fst (randomItem statuses w) \<in> set statuses"
  by (rule randomItem_in_set) (simp_all add: statuses_def)

lemma randomItem_priorities: "fst (randomItem priorities w) \<in> set priorities"
  by (rule randomItem_in_set) (simp_all add: priorities_def)

lemma randomItem_issueStatuses: "fst (randomItem issueStatuses w) \<in> set issueStatuses"
  by (rule randomItem_in_set) (simp_all add: issueStatuses_def)

lemma jama_item_status: "jama_status (fst (jama_item count i w)) \<in> set statuses"
  by (simp add: jama_item_def Let_def split_beta randomItem_statuses)

lemma jama_item_priority:
  "priority (jama_fields (fst (jama_item count i w))) \<in> Some ` set priorities"
  by (simp add: jama_item_def Let_def split_beta randomItem_priorities)

lemma jama_item_id: "jama_id (fst (jama_item count i w)) = ''jama-'' @ String_int i"
  by (simp add: jama_item_def Let_def split_beta)

section \<open>Streaming emitter: stopping\<close>

lemma stop_idle: "intervalId (gen s) = None \<Longrightarrow> stop s = s"
  by (simp add: stop_def)

lemma stop_intervalId: "intervalId (gen (stop s)) = None"
  by (simp add: stop_def clearInterval_def split: option.splits)

text \<open>
  C6: \<^verbatim>\<open>stop()\<close> on an emitter that is already stopped (no active timer) changes nothing,
  and there is no path on which it throws; so stopping twice is stopping once.
\<close>

theorem stop_idempotent:
  "(intervalId (gen s) = None \<longrightarrow> stop s = s) \<and> stop (stop s) = stop s"
  using stop_idle [of "stop s"] by (simp add: stop_idle stop_intervalId)

theorem stop_idempotent_witness:
  "intervalId (gen (new_StreamingDataGenerator sample_world)) = None
   \<and> stop (new_StreamingDataGenerator sample_world) = new_StreamingDataGenerator sample_world"
  using stop_idempotent [of "new_StreamingDataGenerator sample_world"]
  by (simp add: new_StreamingDataGenerator_def)

section \<open>Per-source generators: count and validity\<close>

lemma push_loop_done: "\<not> i \<le> count \<Longrightarrow> push_loop literal count i items w = (items, w)"
  by (subst push_loop.simps) simp

lemma push_loop_step:
  "i \<le> count \<Longrightarrow>
   push_loop literal count i items w =
   push_loop literal count (i + 1) (items @ [fst (literal i w)]) (snd (literal i w))"
  by (subst push_loop.simps) simp

lemma push_loop_append:
  "fst (push_loop literal count i items w) = items @ fst (push_loop literal count i [] w)"
proof (induction "nat (count + 1 - i)" arbitrary: i items w)
  case 0
  then have "\<not> i \<le> count" by simp
  then show ?case by (simp add: push_loop_done)
next
  case (Suc n)
  then have le: "i \<le> count" and n: "n = nat (count + 1 - (i + 1))" by linarith+
  show ?case
    using Suc(1) [OF n, of "items @ [fst (literal i w)]" "snd (literal i w)"]
          Suc(1) [OF n, of "[fst (literal i w)]" "snd (literal i w)"]
    by (simp add: push_loop_step [OF le])
qed

lemma push_loop_unfold:
  "i \<le> count \<Longrightarrow>
   fst (push_loop literal count i [] w) =
   fst (literal i w) # fst (push_loop literal count (i + 1) [] (snd (literal i w)))"
  using push_loop_append [of literal count "i + 1" "[fst (literal i w)]" "snd (literal i w)"]
  by (simp add: push_loop_step)

lemma push_loop_length:
  "length (fst (push_loop literal count i [] w)) = nat (count + 1 - i)"
proof (induction "nat (count + 1 - i)" arbitrary: i w)
  case 0
  then have "\<not> i \<le> count" by simp
  then show ?case using 0 by (simp add: push_loop_done)
next
  case (Suc n)
  then have le: "i \<le> count" and n: "n = nat (count + 1 - (i + 1))" by linarith+
  show ?case
    using Suc(1) [OF n, of "snd (literal i w)"] Suc(2) n
    by (simp add: push_loop_unfold [OF le])
qed

lemma push_loop_all:
  assumes "\<And>i w. P (fst (literal i w))"
  shows "list_all P (fst (push_loop literal count i [] w))"
proof (induction "nat (count + 1 - i)" arbitrary: i w)
  case 0
  then have "\<not> i \<le> count" by simp
  then show ?case by (simp add: push_loop_done)
next
  case (Suc n)
  then have le: "i \<le> count" and n: "n = nat (count + 1 - (i + 1))" by linarith+
  show ?case
    using Suc(1) [OF n, of "snd (literal i w)"] assms
    by (simp add: push_loop_unfold [OF le])
qed

lemma push_loop_map:
  assumes "\<And>i w. f (fst (literal i w)) = g i"
  shows "map f (fst (push_loop literal count i [] w)) = map g [i..count]"
proof (induction "nat (count + 1 - i)" arbitrary: i w)
  case 0
  then have "\<not> i \<le> count" by simp
  then show ?case by (simp add: push_loop_done)
next
  case (Suc n)
  then have le: "i \<le> count" and n: "n = nat (count + 1 - (i + 1))" by linarith+
  have "[i..count] = i # [i + 1..count]" using le by (simp add: upto_rec1)
  then show ?case
    using Suc(1) [OF n, of "snd (literal i w)"] assms
    by (simp add: push_loop_unfold [OF le])
qed

subsection \<open>The object literals\<close>

lemma String_nat_not_Nil: "String_nat n \<noteq> []"
  by (subst String_nat.simps) simp

lemma jama_item_valid: "jama_valid (fst (jama_item count i w))"
  by (simp add: jama_valid_def jama_item_def Let_def split_beta randomItem_statuses
      randomItem_priorities)

lemma jira_issue_valid: "jira_valid (fst (jira_issue i w))"
  by (simp add: jira_valid_def jira_issue_def Let_def split_beta randomItem_issueStatuses
      randomItem_priorities)

lemma windchill_part_valid: "part_valid (fst (windchill_part i w))"
proof -
  have "fst (randomItem [''in_work'', ''released'', ''production'', ''obsolete''] w')
        \<in> set [''in_work'', ''released'', ''production'', ''obsolete'']" for w'
    by (rule randomItem_in_set) simp_all
  then show ?thesis
    by (simp add: part_valid_def windchill_part_def Let_def split_beta)
qed

text \<open>
  C1: for every count \<open>N \<ge> 0\<close> each per-source generator returns exactly \<open>N\<close> records,
  each with a non-empty identifier and a status (and priority, where the record has one)
  of the fixed vocabularies; \<open>N = 0\<close> gives the empty sequence. The generators are total
  functions: no call fails.
\<close>

theorem generators_return_count_valid_records:
  assumes "0 \<le> N"
  shows "int (length (fst (generateFakeJamaItems N w))) = N
       \<and> list_all jama_valid (fst (generateFakeJamaItems N w))
       \<and> int (length (fst (generateFakeJiraIssues N w))) = N
       \<and> list_all jira_valid (fst (generateFakeJiraIssues N w))
       \<and> int (length (fst (generateFakeWindchillParts N w))) = N
       \<and> list_all part_valid (fst (generateFakeWindchillParts N w))
       \<and> fst (generateFakeJamaItems 0 w) = []
       \<and> fst (generateFakeJiraIssues 0 w) = []
       \<and> fst (generateFakeWindchillParts 0 w) = []"
proof -
  have "list_all jama_valid (fst (generateFakeJamaItems N w))"
    unfolding generateFakeJamaItems_def by (rule push_loop_all) (rule jama_item_valid)
  moreover have "list_all jira_valid (fst (generateFakeJiraIssues N w))"
    unfolding generateFakeJiraIssues_def by (rule push_loop_all) (rule jira_issue_valid)
  moreover have "list_all part_valid (fst (generateFakeWindchillParts N w))"
    unfolding generateFakeWindchillParts_def by (rule push_loop_all) (rule windchill_part_valid)
  ultimately show ?thesis
    using assms
    by (simp add: generateFakeJamaItems_def generateFakeJiraIssues_def
        generateFakeWindchillParts_def push_loop_length push_loop_done)
qed

theorem generators_return_count_valid_records_witness:
  "(0::int) \<le> 2
   \<and> int (length (fst (generateFakeJamaItems 2 sample_world))) = 2
   \<and> list_all jama_valid (fst (generateFakeJamaItems 2 sample_world))
   \<and> int (length (fst (generateFakeJiraIssues 2 sample_world))) = 2
   \<and> list_all jira_valid (fst (generateFakeJiraIssues 2 sample_world))
   \<and> int (length (fst (generateFakeWindchillParts 2 sample_world))) = 2
   \<and> list_all part_valid (fst (generateFakeWindchillParts 2 sample_world))"
  using generators_return_count_valid_records [of 2 sample_world] by simp

section \<open>Requirements and test cases\<close>

lemma jama_item_type_at: "jama_item_type (fst (jama_item count i w)) = jama_type_at count i"
  by (simp add: jama_item_def jama_type_at_def Let_def split_beta)

lemma jama_types:
  "map jama_item_type (fst (generateFakeJamaItems count w)) = map (jama_type_at count) [1..count]"
  unfolding generateFakeJamaItems_def by (rule push_loop_map) (rule jama_item_type_at)

lemma fifty_times_0_6: "fl_mul 50 lit_0_6 = 30"
  by code_simp

lemma types_50: "map (jama_type_at 50) [1..50] = replicate 30 ''requirement'' @ replicate 20 ''test_case''"
  unfolding jama_type_at_def of_int_numeral fifty_times_0_6
  by code_simp

lemma filter_map_length: "length (filter P (map f xs)) = length (filter (\<lambda>x. P (f x)) xs)"
  by (induction xs) simp_all

text \<open>
  C3: generating 50 records with \<^verbatim>\<open>generateFakeJamaItems\<close> yields exactly
  \<open>\<lfloor>50 * 0.6\<rfloor> = 30\<close> records of type \<^verbatim>\<open>requirement\<close> and 20 of type \<^verbatim>\<open>test_case\<close>,
  because the record built at index \<open>i\<close> is a requirement iff \<open>i \<le> count * 0.6\<close>
  (the product taken in doubles).
\<close>

theorem fifty_jama_items_thirty_requirements:
  "map jama_item_type (fst (generateFakeJamaItems 50 w)) =
     replicate 30 ''requirement'' @ replicate 20 ''test_case''
   \<and> length (filter (\<lambda>x. jama_item_type x = ''requirement'') (fst (generateFakeJamaItems 50 w))) = 30
   \<and> length (filter (\<lambda>x. jama_item_type x = ''test_case'') (fst (generateFakeJamaItems 50 w))) = 20
   \<and> \<lfloor>fl_mul 50 lit_0_6\<rfloor> = 30
   \<and> (jama_item_type (fst (jama_item count i w')) = ''requirement'')
       = (of_int i \<le> fl_mul (of_int count) lit_0_6)"
proof -
  have iff: "(jama_item_type (fst (jama_item count i w')) = ''requirement'')
       = (of_int i \<le> fl_mul (of_int count) lit_0_6)"
    by (simp add: jama_item_type_at jama_type_at_def)
  have t: "map jama_item_type (fst (generateFakeJamaItems 50 w)) =
     replicate 30 ''requirement'' @ replicate 20 ''test_case''"
    by (simp only: jama_types types_50)
  have "length (filter (\<lambda>x. jama_item_type x = ''requirement'') (fst (generateFakeJamaItems 50 w)))
      = length (filter (\<lambda>t. t = ''requirement'') (map jama_item_type (fst (generateFakeJamaItems 50 w))))"
    by (simp only: filter_map_length)
  also have "\<dots> = 30" unfolding t by simp
  finally have r: "length (filter (\<lambda>x. jama_item_type x = ''requirement'') (fst (generateFakeJamaItems 50 w))) = 30" .
  have "length (filter (\<lambda>x. jama_item_type x = ''test_case'') (fst (generateFakeJamaItems 50 w)))
      = length (filter (\<lambda>t. t = ''test_case'') (map jama_item_type (fst (generateFakeJamaItems 50 w))))"
    by (simp only: filter_map_length)
  also have "\<dots> = 20" unfolding t by simp
  finally have c: "length (filter (\<lambda>x. jama_item_type x = ''test_case'') (fst (generateFakeJamaItems 50 w))) = 20" .
  show ?thesis using t r c iff by (simp add: fifty_times_0_6)
qed

section \<open>Requirements come first\<close>

lemma jama_item_consistent: "jama_consistent (fst (jama_item count i w))"
  by (simp add: jama_consistent_def jama_item_def Let_def split_beta)

lemma threshold_none:
  fixes T :: rat
  assumes "\<not> of_int i \<le> T"
  shows "map (\<lambda>j. if of_int j \<le> T then a else b) [i..n] = replicate (length [i..n]) b"
proof -
  have "of_int j \<le> T \<Longrightarrow> j \<in> set [i..n] \<Longrightarrow> False" for j
  proof -
    assume a: "of_int j \<le> T" "j \<in> set [i..n]"
    then have "i \<le> j" by simp
    then have "(of_int i :: rat) \<le> of_int j" by simp
    with a(1) assms show False by linarith
  qed
  then have "map (\<lambda>j. if of_int j \<le> T then a else b) [i..n] = map (\<lambda>j. b) [i..n]"
    by (intro map_cong) auto
  then show ?thesis by (simp add: map_replicate_const)
qed

lemma threshold_partition:
  fixes T :: rat
  shows "\<exists>k \<le> length [i..n]. map (\<lambda>j. if of_int j \<le> T then a else b) [i..n]
           = replicate k a @ replicate (length [i..n] - k) b"
proof (induction "nat (n + 1 - i)" arbitrary: i)
  case 0
  then have "[i..n] = []" by simp
  then show ?case by simp
next
  case (Suc m)
  then have le: "i \<le> n" and m: "m = nat (n + 1 - (i + 1))" by linarith+
  have rec: "[i..n] = i # [i + 1..n]" using le by (simp add: upto_rec1)
  show ?case
  proof (cases "of_int i \<le> T")
    case True
    from Suc(1) [OF m] obtain k where k: "k \<le> length [i + 1..n]"
      "map (\<lambda>j. if of_int j \<le> T then a else b) [i + 1..n]
           = replicate k a @ replicate (length [i + 1..n] - k) b" by blast
    have "map (\<lambda>j. if of_int j \<le> T then a else b) [i..n]
           = replicate (Suc k) a @ replicate (length [i..n] - Suc k) b"
      unfolding rec using True k by simp
    moreover have "Suc k \<le> length [i..n]" unfolding rec using k(1) by simp
    ultimately show ?thesis by blast
  next
    case False
    from threshold_none [OF this, of a b n] show ?thesis
      by (intro exI [of _ 0]) simp
  qed
qed

text \<open>
  C10: in the sequence \<^verbatim>\<open>generateFakeJamaItems\<close> returns every requirement comes before
  every test case (the item types are a run of \<^verbatim>\<open>requirement\<close> followed by a run of
  \<^verbatim>\<open>test_case\<close>), and the item type decides the document key (\<^verbatim>\<open>SRD-2024\<close> iff
  requirement, \<^verbatim>\<open>FTP-2024\<close> iff test case) and the prefix in the global id (\<^verbatim>\<open>SYS\<close> iff
  requirement, \<^verbatim>\<open>FTC\<close> iff test case).
\<close>

theorem jama_requirements_first_and_consistent:
  "map jama_item_type (fst (generateFakeJamaItems count w)) =
     replicate (length (filter (\<lambda>x. jama_item_type x = ''requirement'')
                         (fst (generateFakeJamaItems count w)))) ''requirement''
     @ replicate (length (filter (\<lambda>x. jama_item_type x = ''test_case'')
                         (fst (generateFakeJamaItems count w)))) ''test_case''
   \<and> list_all jama_consistent (fst (generateFakeJamaItems count w))"
proof -
  let ?xs = "fst (generateFakeJamaItems count w)"
  obtain k where k: "k \<le> length [1..count]"
    "map (jama_type_at count) [1..count]
       = replicate k ''requirement'' @ replicate (length [1..count] - k) ''test_case''"
    using threshold_partition [of 1 count "fl_mul (of_int count) lit_0_6" "''requirement''" "''test_case''"]
    unfolding jama_type_at_def by blast
  have t: "map jama_item_type ?xs
       = replicate k ''requirement'' @ replicate (length [1..count] - k) ''test_case''"
    using k(2) by (simp only: jama_types)
  have "length (filter (\<lambda>x. jama_item_type x = ''requirement'') ?xs)
      = length (filter (\<lambda>t. t = ''requirement'') (map jama_item_type ?xs))"
    by (simp only: filter_map_length)
  also have "\<dots> = k" unfolding t by simp
  finally have r: "length (filter (\<lambda>x. jama_item_type x = ''requirement'') ?xs) = k" .
  have "length (filter (\<lambda>x. jama_item_type x = ''test_case'') ?xs)
      = length (filter (\<lambda>t. t = ''test_case'') (map jama_item_type ?xs))"
    by (simp only: filter_map_length)
  also have "\<dots> = length [1..count] - k" unfolding t by simp
  finally have c: "length (filter (\<lambda>x. jama_item_type x = ''test_case'') ?xs) = length [1..count] - k" .
  have "list_all jama_consistent ?xs"
    unfolding generateFakeJamaItems_def by (rule push_loop_all) (rule jama_item_consistent)
  then show ?thesis using t by (simp only: r c simp_thms)
qed

section \<open>Pulse items are sorted\<close>

lemma set_sort_insert: "set (sort_insert compare x xs) = insert x (set xs)"
  by (induction xs) auto

lemma length_sort_insert: "length (sort_insert compare x xs) = Suc (length xs)"
  by (induction xs) auto

lemma length_Array_sort: "length (Array_sort compare xs) = length xs"
  by (induction xs) (simp_all add: Array_sort_def length_sort_insert)

lemma set_Array_sort: "set (Array_sort compare xs) = set xs"
  by (induction xs) (simp_all add: Array_sort_def set_sort_insert)

lemma sorted_sort_insert:
  "sorted_wrt (\<lambda>a b. pulse_timestamp b \<le> pulse_timestamp a) xs \<Longrightarrow>
   sorted_wrt (\<lambda>a b. pulse_timestamp b \<le> pulse_timestamp a) (sort_insert by_timestamp_desc x xs)"
proof (induction xs)
  case Nil
  then show ?case by simp
next
  case (Cons y ys)
  show ?case
  proof (cases "by_timestamp_desc x y \<le> 0")
    case True
    then have "pulse_timestamp y \<le> pulse_timestamp x" by (simp add: by_timestamp_desc_def)
    then show ?thesis using Cons.prems True by fastforce
  next
    case False
    then have "pulse_timestamp x \<le> pulse_timestamp y" by (simp add: by_timestamp_desc_def)
    then show ?thesis using Cons False by (auto simp add: set_sort_insert)
  qed
qed

lemma sorted_Array_sort:
  "sorted_wrt (\<lambda>a b. pulse_timestamp b \<le> pulse_timestamp a) (Array_sort by_timestamp_desc xs)"
  by (induction xs) (simp_all add: Array_sort_def sorted_sort_insert [unfolded Array_sort_def])

lemma descending_sorted_wrt: "sorted_wrt (\<lambda>a b. b \<le> a) ts \<Longrightarrow> descending ts"
  by (induction ts rule: descending.induct) simp_all

text \<open>
  C2: for every count the list \<^verbatim>\<open>generateFakePulseItems\<close> returns is sorted by timestamp,
  most recent first: every adjacent pair \<open>(a, b)\<close> has \<open>a.timestamp \<ge> b.timestamp\<close>.
  The list holds the \<open>count\<close> items the loop built.
\<close>

theorem pulse_items_sorted_by_timestamp_descending:
  "descending (map pulse_timestamp (fst (generateFakePulseItems count w)))
   \<and> length (fst (generateFakePulseItems count w)) = nat count
   \<and> set (fst (generateFakePulseItems count w)) = set (fst (push_loop pulse_item count 1 [] w))"
proof -
  have "sorted_wrt (\<lambda>a b. b \<le> a)
          (map pulse_timestamp (Array_sort by_timestamp_desc (fst (push_loop pulse_item count 1 [] w))))"
    using sorted_Array_sort by (simp add: sorted_wrt_map)
  then show ?thesis
    by (simp add: generateFakePulseItems_def split_beta descending_sorted_wrt
        length_Array_sort set_Array_sort push_loop_length)
qed

section \<open>Streaming emitter: one timer\<close>

lemma one_timer_new: "one_timer (new_StreamingDataGenerator w)"
  by (simp add: one_timer_def new_StreamingDataGenerator_def)

lemma stop_timers: "one_timer s \<Longrightarrow> timers (stop s) = []"
  by (auto simp add: one_timer_def stop_def clearInterval_def split: option.splits list.splits)

lemma stop_delivered: "delivered (stop s) = delivered s"
  by (simp add: stop_def clearInterval_def split: option.splits)

lemma stop_now: "now (stop s) = now s"
  by (simp add: stop_def clearInterval_def split: option.splits)

lemma stop_counter: "counter (gen (stop s)) = counter (gen s)"
  by (simp add: stop_def clearInterval_def split: option.splits)

lemma one_timer_stop: "one_timer s \<Longrightarrow> one_timer (stop s)"
  using stop_timers [of s] by (simp add: one_timer_def stop_intervalId)

lemma start_timers:
  "one_timer s \<Longrightarrow>
   timers (start cb ms s) =
     [\<lparr>handle = next_handle (stop s), callback = cb, period = timer_delay ms,
       due = now s + timer_delay ms\<rparr>]"
  by (simp add: start_def setInterval_def Let_def stop_timers stop_now)

lemma start_intervalId: "intervalId (gen (start cb ms s)) = Some (next_handle (stop s))"
  by (simp add: start_def setInterval_def Let_def)

lemma start_now: "now (start cb ms s) = now s"
  by (simp add: start_def setInterval_def Let_def stop_now)

lemma start_delivered: "delivered (start cb ms s) = delivered s"
  by (simp add: start_def setInterval_def Let_def stop_delivered)

lemma start_counter: "counter (gen (start cb ms s)) = counter (gen s)"
  by (simp add: start_def setInterval_def Let_def stop_counter)

lemma timer_delay_pos: "0 < timer_delay ms"
  by (simp add: timer_delay_def)

lemma timer_delay_in_range: "1 \<le> ms \<Longrightarrow> ms \<le> 2147483647 \<Longrightarrow> timer_delay ms = ms"
  by (simp add: timer_delay_def)

lemma one_timer_start: "one_timer s \<Longrightarrow> one_timer (start cb ms s)"
  by (simp add: one_timer_def start_timers start_intervalId start_now timer_delay_pos)

lemma fire_timers: "timers (fire t s) = timers s"
  by (simp add: fire_def Let_def split_beta)

lemma fire_now: "now (fire t s) = now s"
  by (simp add: fire_def Let_def split_beta)

lemma fire_intervalId: "intervalId (gen (fire t s)) = intervalId (gen s)"
  by (simp add: fire_def Let_def split_beta)

lemma fire_counter: "counter (gen (fire t s)) = Suc (counter (gen s))"
  by (simp add: fire_def Let_def split_beta)

lemma fold_fire_keeps:
  "timers (fold fire ts s) = timers s \<and> now (fold fire ts s) = now s
   \<and> intervalId (gen (fold fire ts s)) = intervalId (gen s)"
  by (induction ts arbitrary: s) (simp_all add: fire_timers fire_now fire_intervalId)

lemma tick_timers:
  "timers (tick s) =
     map (\<lambda>t. if due t \<le> Suc (now s) then t\<lparr>due := due t + period t\<rparr> else t) (timers s)"
  by (simp add: tick_def Let_def fold_fire_keeps)

lemma tick_now: "now (tick s) = Suc (now s)"
  by (simp add: tick_def Let_def fold_fire_keeps)

lemma tick_intervalId: "intervalId (gen (tick s)) = intervalId (gen s)"
  by (simp add: tick_def Let_def fold_fire_keeps)

lemma one_timer_tick: "one_timer s \<Longrightarrow> one_timer (tick s)"
  by (auto simp add: one_timer_def tick_timers tick_now tick_intervalId
      split: option.splits list.splits)

lemma one_timer_step: "one_timer s \<Longrightarrow> one_timer (step e s)"
  by (cases e) (simp_all add: one_timer_start one_timer_stop one_timer_tick)

lemma one_timer_fold: "one_timer s \<Longrightarrow> one_timer (fold step evs s)"
  by (induction evs arbitrary: s) (simp_all add: one_timer_step)

lemma one_timer_run: "one_timer (run evs (new_StreamingDataGenerator w))"
  unfolding run_def by (rule one_timer_fold) (rule one_timer_new)

lemma one_timer_length: "one_timer s \<Longrightarrow> length (timers s) \<le> 1"
  by (auto simp add: one_timer_def split: option.splits list.splits)

lemma run_append: "run (evs @ evs') s = run evs' (run evs s)"
  by (simp add: run_def)

text \<open>
  C4: at most one timer is ever active for a \<^verbatim>\<open>StreamingDataGenerator\<close>: \<^verbatim>\<open>start\<close> while
  a schedule is active cancels it before installing the new one, so after two calls of
  \<^verbatim>\<open>start\<close> (and after any history that ends in one) exactly one timer is active.
\<close>

theorem at_most_one_active_timer:
  "length (timers (run evs (new_StreamingDataGenerator w))) \<le> 1
   \<and> length (timers (start cb2 ms2 (start cb1 ms1 (run evs (new_StreamingDataGenerator w))))) = 1
   \<and> length (timers (run (evs @ [Start cb1 ms1, Start cb2 ms2]) (new_StreamingDataGenerator w))) = 1
   \<and> map callback (timers (start cb2 ms2 (start cb1 ms1 (run evs (new_StreamingDataGenerator w)))))
       = [cb2]"
proof -
  let ?s = "run evs (new_StreamingDataGenerator w)"
  have inv: "one_timer ?s" by (rule one_timer_run)
  then have inv1: "one_timer (start cb1 ms1 ?s)" by (rule one_timer_start)
  have "run (evs @ [Start cb1 ms1, Start cb2 ms2]) (new_StreamingDataGenerator w)
        = start cb2 ms2 (start cb1 ms1 ?s)"
    by (simp add: run_def)
  then show ?thesis
    using one_timer_length [OF inv] by (simp add: start_timers [OF inv1])
qed

section \<open>Streaming emitter: silence after stop\<close>

lemma tick_delivered_idle: "timers s = [] \<Longrightarrow> delivered (tick s) = delivered s"
  by (simp add: tick_def Let_def)

lemma tick_timers_idle: "timers s = [] \<Longrightarrow> timers (tick s) = []"
  by (simp add: tick_timers)

lemma step_idle:
  assumes "timers s = []" "\<not> is_Start e" "one_timer s"
  shows "timers (step e s) = [] \<and> delivered (step e s) = delivered s"
  using assms
  by (cases e) (simp_all add: tick_delivered_idle tick_timers_idle stop_timers stop_delivered)

lemma run_idle:
  "timers s = [] \<Longrightarrow> one_timer s \<Longrightarrow> no_start evs \<Longrightarrow> delivered (run evs s) = delivered s"
proof (induction evs arbitrary: s)
  case Nil
  then show ?case by (simp add: run_def)
next
  case (Cons e evs)
  then have e: "\<not> is_Start e" and evs: "no_start evs" by (simp_all add: no_start_def)
  from step_idle [OF Cons.prems(1) e Cons.prems(2)]
  have "timers (step e s) = []" "delivered (step e s) = delivered s" by simp_all
  moreover have "one_timer (step e s)" using Cons.prems(2) by (rule one_timer_step)
  ultimately have "delivered (run evs (step e s)) = delivered s"
    using Cons.IH [OF _ _ evs] by simp
  then show ?case by (simp add: run_def)
qed

lemma tick_not_due:
  assumes "timers s = [t]" "Suc (now s) < due t"
  shows "timers (tick s) = [t] \<and> delivered (tick s) = delivered s \<and> now (tick s) = Suc (now s)"
  using assms by (simp add: tick_def Let_def)

lemma ticks_not_due:
  "timers s = [t] \<Longrightarrow> now s + k < due t \<Longrightarrow>
   timers (run (replicate k Tick) s) = [t] \<and> delivered (run (replicate k Tick) s) = delivered s"
proof (induction k arbitrary: s)
  case 0
  then show ?case by (simp add: run_def)
next
  case (Suc k)
  then have d: "Suc (now s) < due t" by simp
  from tick_not_due [OF Suc.prems(1) d]
  have t: "timers (tick s) = [t]" "delivered (tick s) = delivered s" "now (tick s) = Suc (now s)"
    by simp_all
  have "now (tick s) + k < due t" using Suc.prems(2) t(3) by simp
  from Suc.IH [OF t(1) this]
  have "timers (run (replicate k Tick) (tick s)) = [t]"
       "delivered (run (replicate k Tick) (tick s)) = delivered s"
    using t(2) by simp_all
  then show ?case by (simp add: run_def)
qed

lemma run_Cons: "run (e # evs) s = run evs (step e s)"
  by (simp add: run_def)

lemma one_timer_run_from: "one_timer s \<Longrightarrow> one_timer (run evs s)"
  unfolding run_def by (rule one_timer_fold)

lemma stopped_stays_silent:
  assumes "one_timer s" "no_start evs"
  shows "delivered (run (Stop # evs) s) = delivered s"
proof -
  have "timers (stop s) = []" using assms(1) by (rule stop_timers)
  moreover have "one_timer (stop s)" using assms(1) by (rule one_timer_stop)
  ultimately have "delivered (run evs (stop s)) = delivered (stop s)"
    using assms(2) by (rule run_idle)
  then show ?thesis by (simp add: run_Cons stop_delivered)
qed

text \<open>
  C5: if \<^verbatim>\<open>start(callback, intervalMs)\<close> is followed by \<^verbatim>\<open>stop()\<close> before the first
  interval has elapsed, the callback is not invoked; and after any \<^verbatim>\<open>stop()\<close> no callback
  is invoked as long as \<^verbatim>\<open>start\<close> is not called again, however much time passes. The
  first interval is the one the host gives the schedule: \<open>k\<close> milliseconds pass before
  \<^verbatim>\<open>stop()\<close>, with \<open>k\<close> below \<open>timer_delay intervalMs\<close>, which is \<open>intervalMs\<close> itself
  from 1 to 2147483647.
\<close>

theorem no_callback_after_stop:
  assumes "k < timer_delay intervalMs" "no_start evs"
  shows "delivered (run (history @ Start cb intervalMs # replicate k Tick @ Stop # evs)
                      (new_StreamingDataGenerator w))
           = delivered (run history (new_StreamingDataGenerator w))
       \<and> delivered (run (history @ Stop # evs) (new_StreamingDataGenerator w))
           = delivered (run history (new_StreamingDataGenerator w))
       \<and> (1 \<le> intervalMs \<and> intervalMs \<le> 2147483647 \<longrightarrow> timer_delay intervalMs = intervalMs)"
proof -
  let ?s0 = "run history (new_StreamingDataGenerator w)"
  let ?s1 = "start cb intervalMs ?s0"
  let ?t = "\<lparr>handle = next_handle (stop ?s0), callback = cb, period = timer_delay intervalMs,
             due = now ?s0 + timer_delay intervalMs\<rparr>"
  let ?s2 = "run (replicate k Tick) ?s1"
  have inv0: "one_timer ?s0" by (rule one_timer_run)
  have t1: "timers ?s1 = [?t]" using inv0 by (rule start_timers)
  have "now ?s1 + k < due ?t" using assms(1) by (simp add: start_now)
  from ticks_not_due [OF t1 this]
  have d2: "delivered ?s2 = delivered ?s0" by (simp add: start_delivered)
  have "one_timer ?s1" using inv0 by (rule one_timer_start)
  then have inv2: "one_timer ?s2" by (rule one_timer_run_from)
  have "delivered (run (Stop # evs) ?s2) = delivered ?s2"
    using inv2 assms(2) by (rule stopped_stays_silent)
  then have a: "delivered (run (history @ Start cb intervalMs # replicate k Tick @ Stop # evs)
                      (new_StreamingDataGenerator w)) = delivered ?s0"
    using d2 by (simp add: run_append run_Cons)
  have "delivered (run (Stop # evs) ?s0) = delivered ?s0"
    using inv0 assms(2) by (rule stopped_stays_silent)
  then have b: "delivered (run (history @ Stop # evs) (new_StreamingDataGenerator w)) = delivered ?s0"
    by (simp add: run_append)
  show ?thesis using a b by (simp add: timer_delay_in_range)
qed

theorem no_callback_after_stop_witness:
  "2 < timer_delay 3 \<and> timer_delay 3 = 3 \<and> no_start [Tick, Tick, Tick, Stop, Tick]
   \<and> delivered (run ([Start 1 2, Tick, Tick, Tick] @ Start 7 3 # replicate 2 Tick
                      @ Stop # [Tick, Tick, Tick, Stop, Tick])
                 (new_StreamingDataGenerator sample_world))
       = delivered (run [Start 1 2, Tick, Tick, Tick] (new_StreamingDataGenerator sample_world))
   \<and> delivered (run ([Start 1 2, Tick, Tick, Tick] @ Stop # [Tick, Tick, Tick, Stop, Tick])
                 (new_StreamingDataGenerator sample_world))
       = delivered (run [Start 1 2, Tick, Tick, Tick] (new_StreamingDataGenerator sample_world))"
proof -
  have h1: "2 < timer_delay 3" by (simp add: timer_delay_def)
  have h2: "no_start [Tick, Tick, Tick, Stop, Tick]" by (simp add: no_start_def)
  show ?thesis
    using h1 h2 no_callback_after_stop [OF h1 h2, of "[Start 1 2, Tick, Tick, Tick]" 7 sample_world]
    by simp
qed

lemma timer_fires_when_interval_elapses:
  "map fst (delivered (run [Start 7 2, Tick, Tick, Tick] (new_StreamingDataGenerator w))) = [7]"
  by (simp add: run_def start_def stop_def setInterval_def timer_delay_def tick_def fire_def
      new_StreamingDataGenerator_def Let_def split_beta)

lemma delay_out_of_range_fires_every_millisecond:
  "map fst (delivered (run [Start 7 2147483648, Tick, Tick, Tick, Stop, Tick]
                         (new_StreamingDataGenerator w))) = [7, 7, 7]"
  by (simp add: run_def start_def stop_def setInterval_def clearInterval_def timer_delay_def
      tick_def fire_def new_StreamingDataGenerator_def Let_def split_beta)

section \<open>Streaming emitter: the counter\<close>

lemma digit_char_value: "d < 10 \<Longrightarrow> of_char (digit_char d) - 48 = d"
proof -
  assume "d < 10"
  moreover have "list_all (\<lambda>d. (of_char (digit_char d) :: nat) - 48 = d) [0..<10]"
    by code_simp
  ultimately show ?thesis by (simp add: list_all_iff)
qed

lemma digit_char_not_dash: "digit_char d \<noteq> CHR ''-''"
proof -
  have "list_all (\<lambda>d. digit_char d \<noteq> CHR ''-'') [0..<10]"
    by code_simp
  moreover have "d mod 10 < 10" by simp
  ultimately have "digit_char (d mod 10) \<noteq> CHR ''-''" by (simp add: list_all_iff)
  then show ?thesis by (simp add: digit_char_def)
qed

lemma String_nat_no_dash: "CHR ''-'' \<notin> set (String_nat n)"
proof (induction n rule: String_nat.induct)
  case (1 n)
  show ?case
  proof (cases "n < 10")
    case True
    then show ?thesis using digit_char_not_dash [of n] by (subst String_nat.simps) auto
  next
    case False
    then show ?thesis
      using 1 digit_char_not_dash [of "n mod 10"] by (subst String_nat.simps) auto
  qed
qed

lemma read_nat_snoc: "read_nat (s @ [c]) = 10 * read_nat s + (of_char c - 48)"
  by (simp add: read_nat_def)

lemma read_nat_String_nat: "read_nat (String_nat n) = n"
proof (induction n rule: String_nat.induct)
  case (1 n)
  show ?case
  proof (cases "n < 10")
    case True
    then show ?thesis
      by (subst String_nat.simps) (simp add: read_nat_def digit_char_value)
  next
    case False
    have "n mod 10 < 10" by simp
    then have "of_char (digit_char (n mod 10)) - 48 = n mod 10" by (rule digit_char_value)
    then show ?thesis
      using False 1 by (subst String_nat.simps) (simp add: read_nat_snoc)
  qed
qed

lemma takeWhile_until_dash:
  "CHR ''-'' \<notin> set s \<Longrightarrow> takeWhile (\<lambda>c. c \<noteq> CHR ''-'') (s @ CHR ''-'' # rest) = s"
  by (induction s) auto

lemma stream_counter_generated: "stream_counter (fst (generateStreamingItem n w)) = n"
proof -
  have "pulse_id (fst (generateStreamingItem n w))
        = ''stream-'' @ String_nat n @ CHR ''-'' # String_int (fst (Date_now (snd (streaming_artifact
            (fst (randomItem [''jama'', ''jira'', ''windchill'', ''outlook''] w))
            (snd (randomItem [''created'', ''updated'', ''status_change'']
              (snd (randomItem [''jama'', ''jira'', ''windchill'', ''outlook''] w))))))))"
    by (simp add: generateStreamingItem_def Let_def split_beta)
  then show ?thesis
    by (simp add: stream_counter_def takeWhile_until_dash String_nat_no_dash read_nat_String_nat)
qed

lemma counted_fire: "counted s \<Longrightarrow> counted (fire t s)"
  by (simp add: counted_def emitted_counters_def fire_def Let_def split_beta
      stream_counter_generated)

lemma counted_fold_fire: "counted s \<Longrightarrow> counted (fold fire ts s)"
  by (induction ts arbitrary: s) (simp_all add: counted_fire)

lemma counted_tick: "counted s \<Longrightarrow> counted (tick s)"
proof -
  assume a: "counted s"
  have "counted (s\<lparr>now := Suc (now s)\<rparr>)" using a by (simp add: counted_def emitted_counters_def)
  then have "counted (fold fire (filter (\<lambda>t. due t \<le> Suc (now s)) (timers s)) (s\<lparr>now := Suc (now s)\<rparr>))"
    by (rule counted_fold_fire)
  then show ?thesis by (simp add: tick_def Let_def counted_def emitted_counters_def)
qed

lemma counted_step: "counted s \<Longrightarrow> counted (step e s)"
  by (cases e)
     (simp_all add: counted_tick,
      simp_all add: counted_def emitted_counters_def start_delivered start_counter
        stop_delivered stop_counter)

lemma counted_run: "counted s \<Longrightarrow> counted (run evs s)"
  unfolding run_def by (induction evs arbitrary: s) (simp_all add: counted_step)

lemma sorted_wrt_less_upt: "sorted_wrt (<) [m..<n]"
  by (simp add: sorted_wrt_iff_nth_less)

text \<open>
  C9: the counter of a \<^verbatim>\<open>StreamingDataGenerator\<close> is never reset. Each emission
  increments it by exactly one, \<^verbatim>\<open>stop()\<close> (and \<^verbatim>\<open>start\<close>) leave it as it is, and so over
  the lifetime of an instance, stop/start cycles included, the items emitted carry the
  counters 1, 2, 3, ... in this order: each strictly greater than all before it.
\<close>

theorem emitted_counters_strictly_increase:
  "emitted_counters (run evs (new_StreamingDataGenerator w))
     = [1..<Suc (counter (gen (run evs (new_StreamingDataGenerator w))))]
   \<and> sorted_wrt (<) (emitted_counters (run evs (new_StreamingDataGenerator w)))
   \<and> counter (gen (fire t s)) = Suc (counter (gen s))
   \<and> emitted_counters (fire t s) = emitted_counters s @ [Suc (counter (gen s))]
   \<and> counter (gen (stop s)) = counter (gen s)
   \<and> counter (gen (start cb intervalMs s)) = counter (gen s)"
proof -
  have "counted (new_StreamingDataGenerator w)"
    by (simp add: counted_def emitted_counters_def new_StreamingDataGenerator_def)
  then have "counted (run evs (new_StreamingDataGenerator w))" by (rule counted_run)
  then have a: "emitted_counters (run evs (new_StreamingDataGenerator w))
     = [1..<Suc (counter (gen (run evs (new_StreamingDataGenerator w))))]"
    by (simp add: counted_def)
  have b: "sorted_wrt (<) (emitted_counters (run evs (new_StreamingDataGenerator w)))"
    unfolding a by (rule sorted_wrt_less_upt)
  have c: "emitted_counters (fire t s) = emitted_counters s @ [Suc (counter (gen s))]"
    by (simp add: emitted_counters_def fire_def Let_def split_beta stream_counter_generated)
  show ?thesis using a b c by (simp add: fire_counter stop_counter start_counter)
qed

section \<open>Relationship-discovery endpoint: error responses\<close>

lemma invalid_sources_rejected:
  assumes "js_get body ''sources'' = Inr sources"
    and "\<not> truthy sources \<or> \<not> isArray sources \<or> length (elements sources) < 2"
  shows "POST h (Some body) w =
           (\<lparr>status = 400, payload = ErrorJson ''At least 2 data sources are required'' None\<rparr>, [])"
  using assms by (simp add: POST_def)

lemma object_body_rejected:
  assumes "map_of members ''sources'' = None \<or> (\<exists>v. map_of members ''sources'' = Some v \<and>
            (\<not> isArray v \<or> length (elements v) < 2))"
  shows "POST h (Some (JObj members)) w =
           (\<lparr>status = 400, payload = ErrorJson ''At least 2 data sources are required'' None\<rparr>, [])"
  using assms by (auto simp add: POST_def)

text \<open>
  C7: a request body in which \<^verbatim>\<open>sources\<close> is missing, not an array or an array of fewer
  than 2 elements is answered with a 400-class response, before any outbound call. The
  route does so for every body that is not \<^verbatim>\<open>null\<close> (\<open>invalid_sources_rejected\<close>). For
  the JSON body \<^verbatim>\<open>null\<close> the destructuring \<^verbatim>\<open>const { sources } = body\<close> throws before
  the check is reached, and the route answers 500 from its outer \<^verbatim>\<open>catch\<close>, still without
  an outbound call.
\<close>

theorem null_body_answered_500:
  "POST h (Some JNull) w =
     (\<lparr>status = 500, payload = CaughtJson ''Failed to discover relationships'' TypeError\<rparr>, [])"
  by (simp add: POST_def caught_def)

theorem null_body_answered_500_witness:
  "POST (sample_host ''[]'') (Some JNull) sample_world =
     (\<lparr>status = 500, payload = CaughtJson ''Failed to discover relationships'' TypeError\<rparr>, [])"
  using null_body_answered_500 [of "sample_host ''[]''" sample_world] by simp

lemma sample_prompt:
  "prompt_sources (sample_host content) sample_sources =
     Inr [(''REQUIREMENT'', JStr ''Oxygen supply'', JStr ''jama'', JStr ''The system shall store oxygen.''),
          (''JIRA'', JStr ''Tank pressure'', JStr ''Unknown'', JStr ''Pressure drops during test.'')]"
  by code_simp

lemma respond_unparsable:
  assumes "JSON_parse h (JStr s) = None"
  shows "respond h sources w (JStr s) =
           \<lparr>status = 500,
            payload = (if s = [] then ErrorJson ''No response from AI'' None
                       else ErrorJson ''Invalid AI response format'' (Some (JStr s)))\<rparr>"
  using assms by (simp add: respond_def parse_relationships_def)

text \<open>
  C8, as amended: when the model output is a string that is not valid JSON, the route
  answers with a structured 500 error and throws nothing: for a non-empty string the error
  \<^verbatim>\<open>Invalid AI response format\<close> whose \<^verbatim>\<open>details\<close> is the raw text, for the empty string
  the error \<^verbatim>\<open>No response from AI\<close>, which has no \<^verbatim>\<open>details\<close>.
\<close>

theorem unparsable_model_output_answered_500:
  assumes "js_get body ''sources'' = Inr (JArr sources)"
    and "2 \<le> length sources"
    and "OPENAI_API_KEY h = Some key"
    and "key \<noteq> []"
    and "prompt_sources h sources = Inr ps"
    and "fetch h (openai_call h key ps) = Responded True text (Some openaiData)"
    and "model_output openaiData = Inr (JStr s)"
    and "JSON_parse h (JStr s) = None"
  shows "POST h (Some body) w =
           (\<lparr>status = 500,
             payload = (if s = [] then ErrorJson ''No response from AI'' None
                        else ErrorJson ''Invalid AI response format'' (Some (JStr s)))\<rparr>,
            [openai_call h key ps])"
proof -
  have "discover h sources w =
          (respond h sources w (JStr s), [openai_call h key ps])"
    using assms(3-7) by (simp add: discover_def Let_def)
  moreover have "POST h (Some body) w = discover h sources w"
    using assms(1,2) by (simp add: POST_def)
  ultimately show ?thesis
    using respond_unparsable [OF assms(8)] by simp
qed

lemma sample_body: "js_get (JObj [(''sources'', JArr sample_sources)]) ''sources'' = Inr (JArr sample_sources)"
  by simp

lemma sample_model_output: "model_output (completion (JStr s)) = Inr (JStr s)"
  by (simp add: model_output_def completion_def)

theorem unparsable_model_output_answered_500_witness:
  "js_get (JObj [(''sources'', JArr sample_sources)]) ''sources'' = Inr (JArr sample_sources)
   \<and> 2 \<le> length sample_sources
   \<and> OPENAI_API_KEY (sample_host ''not json'') = Some ''sk-sample''
   \<and> ''sk-sample'' \<noteq> []
   \<and> model_output (completion (JStr ''not json'')) = Inr (JStr ''not json'')
   \<and> JSON_parse (sample_host ''not json'') (JStr ''not json'') = None
   \<and> fst (POST (sample_host ''not json'') sample_request sample_world) =
         \<lparr>status = 500,
          payload = ErrorJson ''Invalid AI response format'' (Some (JStr ''not json''))\<rparr>"
proof -
  let ?h = "sample_host ''not json''"
  have h2: "2 \<le> length sample_sources" by (simp add: sample_sources_def)
  have h3: "OPENAI_API_KEY ?h = Some ''sk-sample''" by (simp add: sample_host_def)
  have h4: "''sk-sample'' \<noteq> []" by simp
  have h6: "fetch ?h (openai_call ?h ''sk-sample'' ps) = Responded True [] (Some (completion (JStr ''not json'')))" for ps
    by (simp add: sample_host_def)
  have h8: "JSON_parse ?h (JStr ''not json'') = None" by (simp add: sample_host_def sample_parse_def)
  show ?thesis
    using unparsable_model_output_answered_500 [OF sample_body h2 h3 h4 sample_prompt h6
        sample_model_output h8, of sample_world]
      sample_body h2 h3 h8 sample_model_output
    by (simp add: sample_request_def)
qed

theorem empty_model_output_has_no_details:
  "JSON_parse (sample_host []) (JStr []) = None
   \<and> fst (POST (sample_host []) sample_request sample_world) =
         \<lparr>status = 500, payload = ErrorJson ''No response from AI'' None\<rparr>"
proof -
  have "prompt_sources (sample_host []) sample_sources = Inr ps \<Longrightarrow>
        fst (POST (sample_host []) sample_request sample_world) =
         \<lparr>status = 500, payload = ErrorJson ''No response from AI'' None\<rparr>" for ps
    by (simp add: POST_def sample_request_def discover_def sample_host_def Let_def
        model_output_def completion_def respond_def sample_sources_def)
  then show ?thesis
    using sample_prompt by (simp add: sample_host_def sample_parse_def)
qed

lemma sample_sources_length: "length sample_sources = 2"
  by (simp add: sample_sources_def)

lemma valid_model_output_answered_200:
  "POST (sample_host ''[]'') sample_request sample_world =
     (\<lparr>status = 200, payload = RelationshipsJson [] 1700000000000\<rparr>,
      [\<lparr>call_url = ''https://api.openai.com/v1/chat/completions'',
        call_authorization = ''Bearer sk-sample'', call_model = ''gpt-4o'',
        call_sources =
          [(''REQUIREMENT'', JStr ''Oxygen supply'', JStr ''jama'',
            JStr ''The system shall store oxygen.''),
           (''JIRA'', JStr ''Tank pressure'', JStr ''Unknown'',
            JStr ''Pressure drops during test.'')]\<rparr>])"
proof -
  have "prompt_sources (sample_host ''[]'') sample_sources = Inr ps \<Longrightarrow>
        POST (sample_host ''[]'') sample_request sample_world =
          (\<lparr>status = 200, payload = RelationshipsJson [] 1700000000000\<rparr>,
           [\<lparr>call_url = ''https://api.openai.com/v1/chat/completions'',
             call_authorization = ''Bearer sk-sample'', call_model = ''gpt-4o'',
             call_sources = ps\<rparr>])" for ps
    by (simp add: POST_def sample_request_def discover_def sample_host_def Let_def
        model_output_def completion_def respond_def openai_call_def
        parse_relationships_def sample_parse_def Date_now_def sample_world_def
        sample_sources_def)
  from this [OF sample_prompt] show ?thesis .
qed

lemma one_source_rejected:
  "POST h (Some (JObj [(''sources'', JArr [JObj []])])) w =
     (\<lparr>status = 400, payload = ErrorJson ''At least 2 data sources are required'' None\<rparr>, [])"
  by (simp add: POST_def)

end
